theory Spec2Isabelle
  imports Complex_Main "HOL-Library.Sublist" "HOL-Library.AList"
begin

section \<open>Strings: the JavaScript string operations the services use\<close>

text \<open>
  A JavaScript string is modelled as a \<open>string\<close> (a list of characters). The
  operations below are the library methods the source calls: \<open>startsWith\<close>,
  \<open>endsWith\<close>, \<open>includes\<close>, \<open>split\<close> with a string separator and
  \<open>join\<close>.
\<close>

definition startsWith :: "string \<Rightarrow> string \<Rightarrow> bool" where
  "startsWith s p = prefix p s"

definition endsWith :: "string \<Rightarrow> string \<Rightarrow> bool" where
  "endsWith s p = suffix p s"

fun includesStr :: "string \<Rightarrow> string \<Rightarrow> bool" where
  "includesStr [] sep = (sep = [])"
| "includesStr (c # cs) sep = (prefix sep (c # cs) \<or> includesStr cs sep)"

text \<open>
  \<open>s.split(sep)\<close>: the scan runs left to right, cuts at every occurrence of the
  separator that does not overlap the previous cut, and always yields at least one
  piece. \<open>splitFrom sep cur rest\<close> is the scan with \<open>cur\<close> the piece collected so
  far. With the empty separator JavaScript yields the single characters.
\<close>

function splitFrom :: "string \<Rightarrow> string \<Rightarrow> string \<Rightarrow> string list" where
  "splitFrom sep cur [] = [cur]"
| "splitFrom sep cur (c # cs) =
     (if sep \<noteq> [] \<and> prefix sep (c # cs)
      then cur # splitFrom sep [] (drop (length sep) (c # cs))
      else splitFrom sep (cur @ [c]) cs)"
  by pat_completeness auto
termination
  by (relation "measure (\<lambda>(sep, cur, rest). length rest)") auto

definition splitStr :: "string \<Rightarrow> string \<Rightarrow> string list" where
  "splitStr s sep = (if sep = [] then map (\<lambda>c. [c]) s else splitFrom sep [] s)"

fun join :: "string list \<Rightarrow> string \<Rightarrow> string" where
  "join [] sep = []"
| "join [x] sep = x"
| "join (x # y # ys) sep = x @ sep @ join (y # ys) sep"

subsection \<open>Namespaced tool names\<close>

text \<open>
  \<open>convertMCPToolsToOpenRouterFormat\<close> names a tool by the template
  \<^verbatim>\<open>`${connectionId}__${tool.name}`\<close>; \<open>executeTool\<close> takes the name apart with
  \<^verbatim>\<open>const [connectionId, ...toolNameParts] = functionName.split('__')\<close> and
  \<^verbatim>\<open>toolNameParts.join('__')\<close>.
\<close>

definition namespacedName :: "string \<Rightarrow> string \<Rightarrow> string" where
  "namespacedName connectionId toolName = connectionId @ ''__'' @ toolName"

text \<open>
  The destructuring of an empty array would leave \<open>connectionId\<close> undefined;
  \<open>split\<close> never returns one (lemma \<open>splitFrom_not_Nil\<close>), so that branch is dead.
\<close>

definition splitFunctionName :: "string \<Rightarrow> string \<times> string" where
  "splitFunctionName functionName =
     (case splitStr functionName ''__'' of
        [] \<Rightarrow> ([], [])
      | connectionId # toolNameParts \<Rightarrow> (connectionId, join toolNameParts ''__''))"

section \<open>JSON documents\<close>

text \<open>
  A tool's parameter schema is a parsed JSON document. An object is the list of its
  own entries in JavaScript's property order; \<open>Record<string, unknown>\<close> is such a
  list. A number is taken to be a whole number: the sanitizer only tests numbers for
  zero and for equality.
\<close>

datatype json =
    JNull
  | JBool bool
  | JNum int
  | JStr string
  | JArr "json list"
  | JObj "(string \<times> json) list"

type_synonym jrecord = "(string \<times> json) list"

text \<open>JavaScript truthiness of a JSON value, as in \<^verbatim>\<open>!sanitized.type\<close>.\<close>

fun truthy :: "json \<Rightarrow> bool" where
  "truthy JNull = False"
| "truthy (JBool b) = b"
| "truthy (JNum n) = (n \<noteq> 0)"
| "truthy (JStr s) = (s \<noteq> [])"
| "truthy (JArr xs) = True"
| "truthy (JObj kvs) = True"

text \<open>
  \<^verbatim>\<open>value && typeof value === 'object'\<close>: \<open>typeof\<close> is \<open>'object'\<close> for objects,
  arrays and \<open>null\<close>, and \<open>null\<close> is not truthy.
\<close>

fun truthyObject :: "json \<Rightarrow> bool" where
  "truthyObject (JArr xs) = True"
| "truthyObject (JObj kvs) = True"
| "truthyObject v = False"

fun isArray :: "json \<Rightarrow> bool" where
  "isArray (JArr xs) = True"
| "isArray v = False"

fun arrayItems :: "json \<Rightarrow> json list" where
  "arrayItems (JArr xs) = xs"
| "arrayItems v = []"

text \<open>Decimal numerals, for the index keys of an array.\<close>

fun digitChar :: "nat \<Rightarrow> char" where
  "digitChar n = char_of (48 + n)"

function stringOfNat :: "nat \<Rightarrow> string" where
  "stringOfNat n = (if n < 10 then [digitChar n] else stringOfNat (n div 10) @ [digitChar (n mod 10)])"
  by pat_completeness auto
termination
  by (relation "measure id") auto

text \<open>
  \<open>Object.entries\<close>: the own entries of an object; for an array its items under
  their indices. Every call of \<open>sanitizeSchemaDefinition\<close> is guarded by
  \<open>truthyObject\<close> or typed \<open>Record<string, unknown>\<close>, so no other value reaches it.
\<close>

fun entries :: "json \<Rightarrow> jrecord" where
  "entries (JObj kvs) = kvs"
| "entries (JArr xs) = zip (map stringOfNat [0..<length xs]) xs"
| "entries v = []"

text \<open>
  The assignment \<^verbatim>\<open>obj[key] = value\<close> on a plain object: an existing entry keeps
  its place and takes the new value, a new entry goes last. Assigning to the key
  \<open>__proto__\<close> calls the prototype setter and creates no entry.
\<close>

definition objSet :: "jrecord \<Rightarrow> string \<Rightarrow> json \<Rightarrow> jrecord" where
  "objSet obj key v = (if key = ''__proto__'' then obj else AList.update key v obj)"

text \<open>
  \<^verbatim>\<open>[...new Set(value)]\<close>: the values in the order of their first insertion. The
  set compares primitives by value and objects and arrays by identity; the elements of
  a parsed array are separate objects, so no object equals another element.
\<close>

fun sameValueZero :: "json \<Rightarrow> json \<Rightarrow> bool" where
  "sameValueZero JNull JNull = True"
| "sameValueZero (JBool a) (JBool b) = (a = b)"
| "sameValueZero (JNum a) (JNum b) = (a = b)"
| "sameValueZero (JStr a) (JStr b) = (a = b)"
| "sameValueZero u v = False"

definition setAdd :: "json \<Rightarrow> json list \<Rightarrow> json list" where
  "setAdd v seen = (if list_ex (\<lambda>u. sameValueZero u v) seen then seen else seen @ [v])"

definition spreadSet :: "json list \<Rightarrow> json list" where
  "spreadSet xs = fold setAdd xs []"

section \<open>The schema sanitizer (openrouter.ts)\<close>

definition allowedSchemaProps :: "string list" where
  "allowedSchemaProps =
     [''type'', ''properties'', ''required'', ''description'', ''additionalProperties'',
      ''items'', ''enum'', ''default'', ''title'', ''anyOf'', ''oneOf'', ''allOf'', ''not'',
      ''minimum'', ''maximum'', ''minLength'', ''maxLength'', ''pattern'', ''format'',
      ''minItems'', ''maxItems'', ''uniqueItems'', ''const'', ''examples'',
      ''minProperties'', ''maxProperties'', ''propertyNames'', ''nullable'']"

lemma size_entries: "(k, v) \<in> set (entries x) \<Longrightarrow> size v < size x"
proof (cases x)
  case (JArr xs)
  assume "(k, v) \<in> set (entries x)"
  with JArr have "v \<in> set xs" by (auto dest: set_zip_rightD)
  then have "size v \<le> size_list size xs" by (induction xs) auto
  with JArr show ?thesis by simp
next
  case (JObj kvs)
  assume "(k, v) \<in> set (entries x)"
  with JObj have "(k, v) \<in> set kvs" by simp
  then have "size v \<le> size_list (size_prod (\<lambda>_. 0) size) kvs"
    by (induction kvs) auto
  with JObj show ?thesis by simp
qed simp_all

lemma size_arrayItems: "v \<in> set (arrayItems x) \<Longrightarrow> size v < size x"
proof (cases x)
  case (JArr xs)
  assume "v \<in> set (arrayItems x)"
  with JArr have "v \<in> set xs" by simp
  then have "size v \<le> size_list size xs" by (induction xs) auto
  with JArr show ?thesis by simp
qed simp_all

text \<open>
  \<open>sanitizeSchemaDefinition\<close>: the loop over \<open>Object.entries(schema)\<close> is a fold whose
  state is \<open>result\<close>; \<open>continue\<close> leaves the state as it is.
\<close>

function sanitizeSchemaDefinition :: "json \<Rightarrow> jrecord" where
  "sanitizeSchemaDefinition schema =
     fold (\<lambda>(key, val) result.
        if startsWith key ''$'' then result
        else if key \<notin> set allowedSchemaProps then result
        else if key = ''properties'' \<and> truthyObject val then
          objSet result key (JObj
            (fold (\<lambda>(fieldName, fieldSchema) sanitizedProps.
                if truthyObject fieldSchema
                then objSet sanitizedProps fieldName (JObj (sanitizeSchemaDefinition fieldSchema))
                else objSet sanitizedProps fieldName fieldSchema)
              (entries val) []))
        else if key = ''items'' \<and> truthyObject val then
          objSet result key (JObj (sanitizeSchemaDefinition val))
        else if (key = ''anyOf'' \<or> key = ''oneOf'' \<or> key = ''allOf'') \<and> isArray val then
          objSet result key (JArr
            (map (\<lambda>item. if truthyObject item then JObj (sanitizeSchemaDefinition item) else item)
              (arrayItems val)))
        else if key = ''additionalProperties'' \<and> truthyObject val then
          objSet result key (JObj (sanitizeSchemaDefinition val))
        else if key = ''required'' \<and> isArray val then
          objSet result key (JArr (spreadSet (arrayItems val)))
        else objSet result key val)
      (entries schema) []"
  by pat_completeness auto
termination
  by (relation "measure size") (auto dest!: size_entries size_arrayItems)

text \<open>
  \<open>sanitizeSchema\<close>: the root schema gets \<open>type: 'object'\<close> when its type is missing
  or falsy, and an object schema gets \<open>properties: {}\<close> when its properties are.
\<close>

definition getProp :: "jrecord \<Rightarrow> string \<Rightarrow> json option" where
  "getProp obj key = map_of obj key"

definition falsyProp :: "jrecord \<Rightarrow> string \<Rightarrow> bool" where
  "falsyProp obj key = (case getProp obj key of None \<Rightarrow> True | Some v \<Rightarrow> \<not> truthy v)"

definition sanitizeSchema :: "jrecord \<Rightarrow> jrecord" where
  "sanitizeSchema schema =
     (let sanitized = sanitizeSchemaDefinition (JObj schema);
          sanitized = (if falsyProp sanitized ''type''
                       then objSet sanitized ''type'' (JStr ''object'') else sanitized);
          sanitized = (if getProp sanitized ''type'' = Some (JStr ''object'')
                          \<and> falsyProp sanitized ''properties''
                       then objSet sanitized ''properties'' (JObj []) else sanitized)
      in sanitized)"

section \<open>The credential store and the session store (database.ts)\<close>

text \<open>
  A row of the table \<open>oauth_sessions\<close>; a column that is \<open>NULL\<close> is \<open>None\<close>. The
  columns \<open>created_at\<close> and \<open>updated_at\<close> hold the wall-clock time of the write and
  are left out. A table with a primary key is a map from the key to the row.
\<close>

record oauth_session_row =
  tokens :: "string option"
  code_verifier :: "string option"
  client_info :: "string option"
  authorization_url :: "string option"
  state :: "string option"

type_synonym oauth_table = "string \<rightharpoonup> oauth_session_row"

text \<open>A value that may be \<open>undefined\<close>, \<open>null\<close> or present.\<close>

datatype 'a nullable = Undefined | Null | Val 'a

text \<open>The argument \<open>data\<close> of \<open>oauthDb.upsert\<close>: every field is optional.\<close>

record oauth_data =
  data_tokens :: "string option"
  data_code_verifier :: "string option"
  data_client_info :: "string option"
  data_authorization_url :: "string nullable"
  data_state :: "string option"

definition no_data :: oauth_data where
  "no_data = \<lparr>data_tokens = None, data_code_verifier = None, data_client_info = None,
              data_authorization_url = Undefined, data_state = None\<rparr>"

text \<open>\<^verbatim>\<open>x ?? null\<close> for a field that may also be given as \<open>null\<close>.\<close>

fun orNull :: "'a nullable \<Rightarrow> 'a option" where
  "orNull (Val x) = Some x"
| "orNull v = None"

text \<open>SQL's \<open>COALESCE(a, b)\<close>: the first argument that is not \<open>NULL\<close>.\<close>

fun coalesce :: "'a option \<Rightarrow> 'a option \<Rightarrow> 'a option" where
  "coalesce (Some x) b = Some x"
| "coalesce None b = b"

text \<open>
  The prepared statement \<open>upsertOAuthSession\<close>: an insert, and on a conflict on the
  key an update. The update coalesces every column with its old value except
  \<open>authorization_url\<close>, which takes the parameter as it is.
\<close>

definition upsertOAuthSession ::
  "oauth_table \<Rightarrow> string \<Rightarrow> string option \<Rightarrow> string option \<Rightarrow> string option \<Rightarrow>
   string option \<Rightarrow> string option \<Rightarrow> oauth_table" where
  "upsertOAuthSession tbl connection_id p_tokens p_code_verifier p_client_info
       p_authorization_url p_state =
     (case tbl connection_id of
        None \<Rightarrow>
          tbl(connection_id \<mapsto>
            \<lparr>tokens = p_tokens, code_verifier = p_code_verifier, client_info = p_client_info,
             authorization_url = p_authorization_url, state = p_state\<rparr>)
      | Some row \<Rightarrow>
          tbl(connection_id \<mapsto>
            \<lparr>tokens = coalesce p_tokens (tokens row),
             code_verifier = coalesce p_code_verifier (code_verifier row),
             client_info = coalesce p_client_info (client_info row),
             authorization_url = p_authorization_url,
             state = coalesce p_state (state row)\<rparr>))"

definition oauthDb_get :: "oauth_table \<Rightarrow> string \<Rightarrow> oauth_session_row option" where
  "oauthDb_get tbl connectionId = tbl connectionId"

definition oauthDb_upsert :: "oauth_table \<Rightarrow> string \<Rightarrow> oauth_data \<Rightarrow> oauth_table" where
  "oauthDb_upsert tbl connectionId d =
     upsertOAuthSession tbl connectionId (data_tokens d) (data_code_verifier d)
       (data_client_info d) (orNull (data_authorization_url d)) (data_state d)"

definition oauthDb_delete :: "oauth_table \<Rightarrow> string \<Rightarrow> oauth_table" where
  "oauthDb_delete tbl connectionId = tbl(connectionId := None)"

text \<open>The \<open>UPDATE ... SET column = NULL WHERE connection_id = ?\<close> statements.\<close>

definition updateRow ::
  "oauth_table \<Rightarrow> string \<Rightarrow> (oauth_session_row \<Rightarrow> oauth_session_row) \<Rightarrow> oauth_table" where
  "updateRow tbl connectionId f =
     (case tbl connectionId of None \<Rightarrow> tbl | Some row \<Rightarrow> tbl(connectionId \<mapsto> f row))"

definition oauthDb_clearTokens :: "oauth_table \<Rightarrow> string \<Rightarrow> oauth_table" where
  "oauthDb_clearTokens tbl connectionId = updateRow tbl connectionId (\<lambda>row. row\<lparr>tokens := None\<rparr>)"

definition oauthDb_clearCodeVerifier :: "oauth_table \<Rightarrow> string \<Rightarrow> oauth_table" where
  "oauthDb_clearCodeVerifier tbl connectionId =
     updateRow tbl connectionId (\<lambda>row. row\<lparr>code_verifier := None\<rparr>)"

definition oauthDb_clearClientInfo :: "oauth_table \<Rightarrow> string \<Rightarrow> oauth_table" where
  "oauthDb_clearClientInfo tbl connectionId =
     updateRow tbl connectionId (\<lambda>row. row\<lparr>client_info := None\<rparr>)"

definition oauthDb_clearAuthorizationUrl :: "oauth_table \<Rightarrow> string \<Rightarrow> oauth_table" where
  "oauthDb_clearAuthorizationUrl tbl connectionId =
     updateRow tbl connectionId (\<lambda>row. row\<lparr>authorization_url := None\<rparr>)"

text \<open>
  The table \<open>mcp_connections\<close>, kept as the list of its rows under their keys, so that
  \<open>getAll\<close> can run through it. \<open>getAll\<close> orders the rows by \<open>updated_at\<close>, which is
  left out with the other times: the list order stands for it.
\<close>

record mcp_connection_row =
  row_url :: string
  row_name :: string
  row_status :: string

type_synonym mcp_table = "(string \<times> mcp_connection_row) list"

definition mcpDb_getAll :: "mcp_table \<Rightarrow> (string \<times> mcp_connection_row) list" where
  "mcpDb_getAll tbl = tbl"

definition mcpDb_upsert :: "mcp_table \<Rightarrow> string \<Rightarrow> string \<Rightarrow> string \<Rightarrow> string \<Rightarrow> mcp_table" where
  "mcpDb_upsert tbl ident url nm status =
     AList.update ident \<lparr>row_url = url, row_name = nm, row_status = status\<rparr> tbl"

definition mcpDb_delete :: "mcp_table \<Rightarrow> string \<Rightarrow> mcp_table" where
  "mcpDb_delete tbl ident = AList.delete ident tbl"

definition mcpDb_updateStatus :: "mcp_table \<Rightarrow> string \<Rightarrow> string \<Rightarrow> mcp_table" where
  "mcpDb_updateStatus tbl ident status =
     (case map_of tbl ident of
        None \<Rightarrow> tbl
      | Some row \<Rightarrow> AList.update ident (row\<lparr>row_status := status\<rparr>) tbl)"

section \<open>The authorization flow adapter (oauth-provider.ts)\<close>

text \<open>
  The provider made by \<open>createOAuthClientProvider\<close> is bound to one connection
  identifier; each of its methods reads or writes that identifier's row. A string that
  is empty counts as absent in \<open>getSession\<close> (\<^verbatim>\<open>row.code_verifier || undefined\<close>).
\<close>

fun orUndefined :: "string option \<Rightarrow> string option" where
  "orUndefined (Some s) = (if s = [] then None else Some s)"
| "orUndefined None = None"

definition getAuthorizationUrl :: "oauth_table \<Rightarrow> string \<Rightarrow> string option" where
  "getAuthorizationUrl tbl connectionId =
     (case oauthDb_get tbl connectionId of
        None \<Rightarrow> None
      | Some row \<Rightarrow> orUndefined (authorization_url row))"

text \<open>
  \<open>tokens()\<close> parses the stored text when it is not empty; the text was written by
  \<open>saveTokens\<close> as the JSON of a tokens object, so the result is that text's object.
  The model keeps the text.
\<close>

definition providerTokens :: "oauth_table \<Rightarrow> string \<Rightarrow> string option" where
  "providerTokens tbl connectionId =
     (case oauthDb_get tbl connectionId of
        None \<Rightarrow> None
      | Some row \<Rightarrow> orUndefined (tokens row))"

text \<open>\<open>codeVerifier()\<close> throws when no verifier is stored.\<close>

definition codeVerifier :: "oauth_table \<Rightarrow> string \<Rightarrow> string + string" where
  "codeVerifier tbl connectionId =
     (case oauthDb_get tbl connectionId of
        None \<Rightarrow> Inl ''No code verifier found''
      | Some row \<Rightarrow>
          (case orUndefined (code_verifier row) of
             None \<Rightarrow> Inl ''No code verifier found''
           | Some v \<Rightarrow> Inr v))"

datatype scope = ScopeAll | ScopeClient | ScopeTokens | ScopeVerifier

text \<open>
  The writing methods of the provider, as the calls the protocol library makes on it
  while a session is opened. \<open>StateCall\<close> carries the nonce that
  \<open>crypto.randomUUID()\<close> returned; the saving calls carry the text that is stored.
\<close>

datatype provider_call =
    StateCall string
  | SaveClientInformation string
  | SaveTokens string
  | RedirectToAuthorization string
  | SaveCodeVerifier string
  | InvalidateCredentials scope

fun providerCall :: "string \<Rightarrow> provider_call \<Rightarrow> oauth_table \<Rightarrow> oauth_table" where
  "providerCall connectionId (StateCall nonce) tbl =
     oauthDb_upsert tbl connectionId (no_data\<lparr>data_state := Some nonce\<rparr>)"
| "providerCall connectionId (SaveClientInformation clientInfo) tbl =
     oauthDb_upsert tbl connectionId (no_data\<lparr>data_client_info := Some clientInfo\<rparr>)"
| "providerCall connectionId (SaveTokens toks) tbl =
     oauthDb_upsert tbl connectionId (no_data\<lparr>data_tokens := Some toks\<rparr>)"
| "providerCall connectionId (RedirectToAuthorization url) tbl =
     oauthDb_upsert tbl connectionId (no_data\<lparr>data_authorization_url := Val url\<rparr>)"
| "providerCall connectionId (SaveCodeVerifier verifier) tbl =
     oauthDb_upsert tbl connectionId (no_data\<lparr>data_code_verifier := Some verifier\<rparr>)"
| "providerCall connectionId (InvalidateCredentials ScopeAll) tbl =
     oauthDb_delete tbl connectionId"
| "providerCall connectionId (InvalidateCredentials ScopeTokens) tbl =
     oauthDb_clearTokens tbl connectionId"
| "providerCall connectionId (InvalidateCredentials ScopeVerifier) tbl =
     oauthDb_clearCodeVerifier tbl connectionId"
| "providerCall connectionId (InvalidateCredentials ScopeClient) tbl =
     oauthDb_clearClientInfo tbl connectionId"

definition providerCalls :: "string \<Rightarrow> provider_call list \<Rightarrow> oauth_table \<Rightarrow> oauth_table" where
  "providerCalls connectionId calls tbl = fold (providerCall connectionId) calls tbl"

definition clearAuthorizationUrl :: "oauth_table \<Rightarrow> string \<Rightarrow> oauth_table" where
  "clearAuthorizationUrl tbl connectionId = oauthDb_clearAuthorizationUrl tbl connectionId"

definition deleteOAuthSession :: "oauth_table \<Rightarrow> string \<Rightarrow> oauth_table" where
  "deleteOAuthSession tbl connectionId = oauthDb_delete tbl connectionId"

section \<open>The connection manager (mcp-manager.ts)\<close>

datatype status = Connected | Disconnected | ErrorStatus | PendingAuth

fun statusText :: "status \<Rightarrow> string" where
  "statusText Connected = ''connected''"
| "statusText Disconnected = ''disconnected''"
| "statusText ErrorStatus = ''error''"
| "statusText PendingAuth = ''pending_auth''"

record mcp_tool =
  tool_name :: string
  tool_description :: "string option"
  inputSchema :: jrecord

text \<open>
  A protocol session is an object made by \<open>new Client(...)\<close>; it is named by the
  connection it was made for. \<open>connect\<close> makes a second one for the retry after the
  authorization. A transport is of one of two kinds.
\<close>

datatype client = Client string | RetryClient string

datatype transport = StreamableHTTP | SSE

record mcp_connection =
  conn_id :: string
  conn_url :: string
  conn_name :: string
  conn_status :: status
  conn_tools :: "mcp_tool list"
  conn_client :: client
  conn_transport :: transport

record pending_connection =
  pend_url :: string
  pend_name :: string
  pend_transport :: transport
  pend_client :: client

text \<open>
  The state the manager works on: its two maps (a JavaScript \<open>Map\<close> keeps its keys in
  the order of their first insertion), the two tables, and the sessions on which
  \<open>close()\<close> has been called.
\<close>

record manager_state =
  connections :: "(string \<times> mcp_connection) list"
  pendingConnections :: "(string \<times> pending_connection) list"
  oauth_sessions :: oauth_table
  mcp_connections :: mcp_table
  closeCalls :: "client list"

text \<open>
  A value thrown by the protocol library: an \<open>UnauthorizedError\<close>, another \<open>Error\<close>
  (both carry a message), or a value that is no \<open>Error\<close>.
\<close>

datatype thrown = UnauthorizedError string | ErrorObject string | OtherThrown

text \<open>\<^verbatim>\<open>error instanceof Error ? error.message : fallback\<close>\<close>

fun errorMessage :: "thrown \<Rightarrow> string \<Rightarrow> string" where
  "errorMessage (UnauthorizedError m) fallback = m"
| "errorMessage (ErrorObject m) fallback = m"
| "errorMessage OtherThrown fallback = fallback"

text \<open>\<^verbatim>\<open>name || new URL(url).hostname\<close>: an empty name counts as none.\<close>

fun nameOr :: "string option \<Rightarrow> string \<Rightarrow> string" where
  "nameOr (Some n) host = (if n = [] then host else n)"
| "nameOr None host = host"

record connection_view =
  view_id :: string
  view_url :: string
  view_name :: string
  view_status :: status
  view_tools :: "mcp_tool list"

record connect_result =
  res_connection :: "connection_view option"
  needsAuth :: bool
  res_authorizationUrl :: "string option"
  res_connectionId :: "string option"

definition publicView :: "mcp_connection \<Rightarrow> connection_view" where
  "publicView c = \<lparr>view_id = conn_id c, view_url = conn_url c, view_name = conn_name c,
                    view_status = conn_status c, view_tools = conn_tools c\<rparr>"

definition connectedResult :: "mcp_connection \<Rightarrow> connect_result" where
  "connectedResult c = \<lparr>res_connection = Some (publicView c), needsAuth = False,
                         res_authorizationUrl = None, res_connectionId = None\<rparr>"

text \<open>
  What the outside world contributes to one attempt to open a session: whether the
  constructors of the two transports throw, the host name of the URL, the calls the
  protocol library makes on the provider, and the outcome of \<open>client.connect\<close>
  followed by \<open>listTools\<close> (the tools, or the value thrown). For \<open>connect\<close> it also
  holds the identifier \<open>uuidv4()\<close> returns.
\<close>

record attempt =
  uuid :: string
  streamable_throws :: "thrown option"
  sse_throws :: "thrown option"
  hostname :: string
  calls :: "provider_call list"
  session :: "thrown + mcp_tool list"

text \<open>
  The choice of the transport: the streamable one, and the other one when the first
  constructor throws. A throw of the second constructor is not caught.
\<close>

definition chooseTransport :: "attempt \<Rightarrow> thrown + (transport \<times> bool)" where
  "chooseTransport env =
     (case streamable_throws env of
        None \<Rightarrow> Inr (StreamableHTTP, False)
      | Some e \<Rightarrow> (case sse_throws env of None \<Rightarrow> Inr (SSE, True) | Some e' \<Rightarrow> Inl e'))"

definition connect ::
  "attempt \<Rightarrow> string \<Rightarrow> string option \<Rightarrow> manager_state \<Rightarrow> (thrown + connect_result) \<times> manager_state" where
  "connect env url nm s =
     (let ident = uuid env in
      case chooseTransport env of
        Inl e \<Rightarrow> (Inl e, s)
      | Inr (transport, useSSE) \<Rightarrow>
          let s1 = s\<lparr>oauth_sessions := providerCalls ident (calls env) (oauth_sessions s)\<rparr> in
          (case session env of
             Inr tools \<Rightarrow>
               let connectionName = nameOr nm (hostname env);
                   connection = \<lparr>conn_id = ident, conn_url = url, conn_name = connectionName,
                     conn_status = Connected, conn_tools = tools, conn_client = Client ident,
                     conn_transport = transport\<rparr>
               in (Inr (connectedResult connection),
                   s1\<lparr>connections := AList.update ident connection (connections s1),
                      mcp_connections :=
                        mcpDb_upsert (mcp_connections s1) ident url connectionName ''connected''\<rparr>)
           | Inl err \<Rightarrow>
               (case (case err of
                        UnauthorizedError m \<Rightarrow> getAuthorizationUrl (oauth_sessions s1) ident
                      | ErrorObject m \<Rightarrow> None
                      | OtherThrown \<Rightarrow> None) of
                  Some authorizationUrl \<Rightarrow>
                    let connectionName = nameOr nm (hostname env);
                        retryTransport = (if useSSE then SSE else StreamableHTTP)
                    in (Inr \<lparr>res_connection = None, needsAuth = True,
                              res_authorizationUrl = Some authorizationUrl,
                              res_connectionId = Some ident\<rparr>,
                        s1\<lparr>mcp_connections :=
                             mcpDb_upsert (mcp_connections s1) ident url connectionName
                               ''pending_auth'',
                           pendingConnections :=
                             AList.update ident
                               \<lparr>pend_url = url, pend_name = connectionName,
                                pend_transport = retryTransport,
                                pend_client = RetryClient ident\<rparr>
                               (pendingConnections s1),
                           oauth_sessions := clearAuthorizationUrl (oauth_sessions s1) ident\<rparr>)
                | None \<Rightarrow>
                    (Inl (ErrorObject (''Failed to connect to MCP server: ''
                            @ errorMessage err ''Unknown error'')),
                     s1\<lparr>oauth_sessions := deleteOAuthSession (oauth_sessions s1) ident,
                        mcp_connections := mcpDb_delete (mcp_connections s1) ident\<rparr>))))"

text \<open>
  \<open>completeOAuthConnection\<close>: \<open>session env\<close> is the outcome of \<open>finishAuth\<close>,
  \<open>client.connect\<close> and \<open>listTools\<close> on the pending session.
\<close>

definition completeOAuthConnection ::
  "attempt \<Rightarrow> string \<Rightarrow> string \<Rightarrow> manager_state \<Rightarrow> (thrown + connect_result) \<times> manager_state" where
  "completeOAuthConnection env connectionId authorizationCode s =
     (case map_of (pendingConnections s) connectionId of
        None \<Rightarrow> (Inl (ErrorObject (''No pending connection found for ID: '' @ connectionId)), s)
      | Some pending \<Rightarrow>
          let s1 = s\<lparr>oauth_sessions := providerCalls connectionId (calls env) (oauth_sessions s)\<rparr> in
          (case session env of
             Inr tools \<Rightarrow>
               let connection = \<lparr>conn_id = connectionId, conn_url = pend_url pending,
                     conn_name = pend_name pending, conn_status = Connected, conn_tools = tools,
                     conn_client = pend_client pending, conn_transport = pend_transport pending\<rparr>
               in (Inr (connectedResult connection),
                   s1\<lparr>connections := AList.update connectionId connection (connections s1),
                      pendingConnections := AList.delete connectionId (pendingConnections s1),
                      mcp_connections :=
                        mcpDb_updateStatus (mcp_connections s1) connectionId ''connected''\<rparr>)
           | Inl err \<Rightarrow>
               (Inl (ErrorObject (''Failed to complete OAuth: '' @ errorMessage err ''Unknown error'')),
                s1\<lparr>pendingConnections := AList.delete connectionId (pendingConnections s1),
                   oauth_sessions := deleteOAuthSession (oauth_sessions s1) connectionId,
                   mcp_connections := mcpDb_delete (mcp_connections s1) connectionId\<rparr>)))"

text \<open>
  \<open>disconnect\<close>: \<open>close_throws\<close> says whether \<open>connection.client.close()\<close> throws.
  The \<open>try\<close> block and the \<open>catch\<close> block are the two branches under a live
  connection; without one nothing in the \<open>try\<close> block can throw.
\<close>

definition disconnect :: "bool \<Rightarrow> string \<Rightarrow> manager_state \<Rightarrow> bool \<times> manager_state" where
  "disconnect close_throws ident s =
     (let connection = map_of (connections s) ident;
          pending = map_of (pendingConnections s) ident
      in if connection = None \<and> pending = None then (False, s)
         else
           (case connection of
              Some c \<Rightarrow>
                if close_throws then
                  (True, s\<lparr>closeCalls := closeCalls s @ [conn_client c],
                           connections := AList.delete ident (connections s),
                           pendingConnections := AList.delete ident (pendingConnections s),
                           oauth_sessions := deleteOAuthSession (oauth_sessions s) ident,
                           mcp_connections := mcpDb_delete (mcp_connections s) ident\<rparr>)
                else
                  (True, s\<lparr>closeCalls := closeCalls s @ [conn_client c],
                           connections := AList.delete ident (connections s),
                           pendingConnections :=
                             (if pending \<noteq> None then AList.delete ident (pendingConnections s)
                              else pendingConnections s),
                           oauth_sessions := deleteOAuthSession (oauth_sessions s) ident,
                           mcp_connections := mcpDb_delete (mcp_connections s) ident\<rparr>)
            | None \<Rightarrow>
                (True, s\<lparr>pendingConnections :=
                           (if pending \<noteq> None then AList.delete ident (pendingConnections s)
                            else pendingConnections s),
                         oauth_sessions := deleteOAuthSession (oauth_sessions s) ident,
                         mcp_connections := mcpDb_delete (mcp_connections s) ident\<rparr>)))"

text \<open>
  \<open>reconnect\<close>: without stored tokens the saved connection is marked disconnected and
  nothing is opened; a throw leaves the method and is caught by the caller.
\<close>

definition reconnect ::
  "attempt \<Rightarrow> string \<Rightarrow> string \<Rightarrow> string \<Rightarrow> manager_state \<Rightarrow> (thrown + unit) \<times> manager_state" where
  "reconnect env ident url nm s =
     (case providerTokens (oauth_sessions s) ident of
        None \<Rightarrow>
          (Inr (), s\<lparr>mcp_connections := mcpDb_updateStatus (mcp_connections s) ident ''disconnected''\<rparr>)
      | Some toks \<Rightarrow>
          (case chooseTransport env of
             Inl e \<Rightarrow> (Inl e, s)
           | Inr (transport, useSSE) \<Rightarrow>
               let s1 = s\<lparr>oauth_sessions := providerCalls ident (calls env) (oauth_sessions s)\<rparr> in
               (case session env of
                  Inl err \<Rightarrow> (Inl err, s1)
                | Inr tools \<Rightarrow>
                    let connection = \<lparr>conn_id = ident, conn_url = url, conn_name = nm,
                          conn_status = Connected, conn_tools = tools, conn_client = Client ident,
                          conn_transport = transport\<rparr>
                    in (Inr (),
                        s1\<lparr>connections := AList.update ident connection (connections s1),
                           mcp_connections :=
                             mcpDb_updateStatus (mcp_connections s1) ident ''connected''\<rparr>))))"

text \<open>
  \<open>reconnectSavedConnections\<close> runs through the rows read at its start; \<open>envOf\<close> gives
  the outside world's part for each saved identifier.
\<close>

definition reconnectSavedConnections :: "(string \<Rightarrow> attempt) \<Rightarrow> manager_state \<Rightarrow> manager_state" where
  "reconnectSavedConnections envOf s =
     fold (\<lambda>(ident, saved) s.
        case reconnect (envOf ident) ident (row_url saved) (row_name saved) s of
          (Inr u, s') \<Rightarrow> s'
        | (Inl err, s') \<Rightarrow>
            s'\<lparr>mcp_connections := mcpDb_updateStatus (mcp_connections s') ident ''disconnected''\<rparr>)
      (mcpDb_getAll (mcp_connections s)) s"

record tool_entry =
  entry_connectionId :: string
  entry_connectionName :: string
  entry_tool :: mcp_tool

text \<open>\<open>getAllTools\<close>: the two nested loops push one entry per tool of every connection.\<close>

definition getAllTools :: "manager_state \<Rightarrow> tool_entry list" where
  "getAllTools s =
     concat (map (\<lambda>(key, connection).
        map (\<lambda>t. \<lparr>entry_connectionId = conn_id connection,
                   entry_connectionName = conn_name connection, entry_tool = t\<rparr>)
          (conn_tools connection))
       (connections s))"

text \<open>
  The states the manager can be in: the process starts with both maps empty and runs
  \<open>reconnectSavedConnections\<close> once (index.ts); after that \<open>connect\<close>,
  \<open>completeOAuthConnection\<close> and \<open>disconnect\<close> run one after the other. The
  identifier \<open>uuidv4()\<close> gives is one not in use.
\<close>

inductive reachable :: "manager_state \<Rightarrow> bool" where
  startup: "connections s = [] \<Longrightarrow> pendingConnections s = [] \<Longrightarrow>
            reachable (reconnectSavedConnections envOf s)"
| after_connect: "reachable s \<Longrightarrow> uuid env \<notin> fst ` set (connections s) \<Longrightarrow>
            uuid env \<notin> fst ` set (pendingConnections s) \<Longrightarrow>
            reachable (snd (connect env url nm s))"
| after_complete: "reachable s \<Longrightarrow>
            reachable (snd (completeOAuthConnection env connectionId authorizationCode s))"
| after_disconnect: "reachable s \<Longrightarrow> reachable (snd (disconnect close_throws ident s))"

section \<open>The tool-calling orchestrator (openrouter.ts)\<close>

datatype role = User | Assistant | System | Tool

record tool_call =
  call_id :: string
  call_type :: string
  function_name :: string
  function_arguments :: string

text \<open>
  A chat message. In a reply parsed from the backend the content may be missing
  (\<open>Undefined\<close>) and the message may carry fields that are not part of the protocol
  (\<open>msg_extra\<close>). \<open>msg_tool_calls = None\<close> is a message without the field
  \<open>tool_calls\<close>; \<open>Some []\<close> is a message whose field is the empty array.
\<close>

record chat_message =
  msg_role :: role
  msg_content :: "string nullable"
  msg_tool_calls :: "tool_call list option"
  msg_tool_call_id :: "string option"
  msg_name :: "string option"
  msg_extra :: jrecord

record openrouter_tool =
  fn_name :: string
  fn_description :: string
  fn_parameters :: jrecord

record chat_request =
  req_model :: string
  req_messages :: "chat_message list"
  req_tools :: "openrouter_tool list option"
  req_tool_choice :: "string option"
  req_temperature :: rat
  req_max_tokens :: int

record tool_result =
  result_tool_call_id :: string
  result_name :: string
  result_output :: string

record chat_options =
  opt_model :: "string option"
  opt_temperature :: "rat option"
  opt_maxTokens :: "int option"
  useTools :: "bool option"
  maxIterations :: "int option"

text \<open>
  What \<open>fetch\<close> and the reading of its response come to, as far as \<open>chat\<close> tells the
  cases apart: \<open>fetch\<close> throws; the response is not ok (the string is the message of
  the error \<open>chat\<close> then throws, made from the status and the body); the body is not
  JSON; the document has no choice; the first choice has no message; or a message.
\<close>

datatype backend_reply =
    Rejected thrown
  | HttpError string
  | InvalidJson
  | NoChoices
  | NoMessage
  | Reply chat_message

text \<open>
  The collaborators of the service, over a state \<open>'w\<close> of the outside world that the
  calls thread through: the environment variable with the API key, \<open>JSON.parse\<close>
  (a syntax error is the thrown value), \<open>JSON.stringify\<close> without and with the
  indentation 2, the session's \<open>callTool\<close>, the completion request, and the text of
  the fixed system instruction.
\<close>

record 'w collaborators =
  OPENROUTER_API_KEY :: "string option"
  jsonParse :: "string \<Rightarrow> thrown + json"
  jsonStringify :: "json \<Rightarrow> string"
  jsonStringifyIndented :: "json \<Rightarrow> string"
  clientCallTool :: "client \<Rightarrow> string \<Rightarrow> json \<Rightarrow> 'w \<Rightarrow> (thrown + json) \<times> 'w"
  fetchCompletion :: "string \<Rightarrow> chat_request \<Rightarrow> 'w \<Rightarrow> backend_reply \<times> 'w"
  systemPromptText :: string

text \<open>\<open>callTool\<close> of the manager: both failures are thrown as an \<open>Error\<close>.\<close>

definition callTool ::
  "'w collaborators \<Rightarrow> manager_state \<Rightarrow> string \<Rightarrow> string \<Rightarrow> json \<Rightarrow> 'w \<Rightarrow> (thrown + json) \<times> 'w" where
  "callTool co s connId toolName args w =
     (case map_of (connections s) connId of
        None \<Rightarrow> (Inl (ErrorObject (''MCP connection not found: '' @ connId)), w)
      | Some connection \<Rightarrow>
          (case clientCallTool co (conn_client connection) toolName args w of
             (Inr result, w') \<Rightarrow> (Inr result, w')
           | (Inl err, w') \<Rightarrow>
               (Inl (ErrorObject (''Failed to call tool '' @ toolName @ '': ''
                       @ errorMessage err ''Unknown error'')), w')))"

definition getApiKey :: "'w collaborators \<Rightarrow> string option" where
  "getApiKey co = orUndefined (OPENROUTER_API_KEY co)"

definition defaultModel :: string where
  "defaultModel = ''anthropic/claude-sonnet-4''"

text \<open>\<^verbatim>\<open>tool.description || `Tool ${tool.name}`\<close>\<close>

definition convertMCPToolsToOpenRouterFormat :: "manager_state \<Rightarrow> openrouter_tool list" where
  "convertMCPToolsToOpenRouterFormat s =
     map (\<lambda>e.
        \<lparr>fn_name = namespacedName (entry_connectionId e) (tool_name (entry_tool e)),
         fn_description =
           (case orUndefined (tool_description (entry_tool e)) of
              Some d \<Rightarrow> d
            | None \<Rightarrow> ''Tool '' @ tool_name (entry_tool e)),
         fn_parameters = sanitizeSchema (inputSchema (entry_tool e))\<rparr>)
       (getAllTools s)"

text \<open>The \<open>catch\<close> block of \<open>executeTool\<close>: the error as the tool's output.\<close>

definition errorOutput :: "'w collaborators \<Rightarrow> thrown \<Rightarrow> string" where
  "errorOutput co err =
     jsonStringify co (JObj [(''error'', JStr (errorMessage err ''Tool execution failed''))])"

definition executeTool ::
  "'w collaborators \<Rightarrow> manager_state \<Rightarrow> tool_call \<Rightarrow> 'w \<Rightarrow> tool_result \<times> 'w" where
  "executeTool co s toolCall w =
     (let functionName = function_name toolCall;
          (connId, toolName) = splitFunctionName functionName
      in case jsonParse co (function_arguments toolCall) of
           Inl err \<Rightarrow>
             (\<lparr>result_tool_call_id = call_id toolCall, result_name = functionName,
               result_output = errorOutput co err\<rparr>, w)
         | Inr args \<Rightarrow>
             (case callTool co s connId toolName args w of
                (Inr result, w') \<Rightarrow>
                  (\<lparr>result_tool_call_id = call_id toolCall, result_name = functionName,
                    result_output = jsonStringifyIndented co result\<rparr>, w')
              | (Inl err, w') \<Rightarrow>
                  (\<lparr>result_tool_call_id = call_id toolCall, result_name = functionName,
                    result_output = errorOutput co err\<rparr>, w')))"

definition cleanToolCall :: "tool_call \<Rightarrow> tool_call" where
  "cleanToolCall tc =
     \<lparr>call_id = call_id tc, call_type = call_type tc, function_name = function_name tc,
      function_arguments = (if function_arguments tc = [] then ''{}'' else function_arguments tc)\<rparr>"

text \<open>\<^verbatim>\<open>message.tool_calls && message.tool_calls.length > 0\<close>\<close>

definition hasToolCalls :: "chat_message \<Rightarrow> bool" where
  "hasToolCalls msg = (case msg_tool_calls msg of None \<Rightarrow> False | Some tcs \<Rightarrow> tcs \<noteq> [])"

definition cleanMessage :: "chat_message \<Rightarrow> chat_message" where
  "cleanMessage msg =
     (let clean = \<lparr>msg_role = msg_role msg, msg_content = msg_content msg, msg_tool_calls = None,
                   msg_tool_call_id = None, msg_name = None, msg_extra = []\<rparr>;
          clean = (if msg_role msg = Tool \<and> orUndefined (msg_tool_call_id msg) \<noteq> None
                   then clean\<lparr>msg_tool_call_id := msg_tool_call_id msg\<rparr> else clean);
          clean = (if msg_role msg = Assistant \<and> hasToolCalls msg
                   then clean\<lparr>msg_tool_calls :=
                          map_option (map cleanToolCall) (msg_tool_calls msg)\<rparr>
                   else clean)
      in clean)"

definition cleanMessages :: "chat_message list \<Rightarrow> chat_message list" where
  "cleanMessages messages = map cleanMessage messages"

text \<open>
  The request \<open>chat\<close> builds. The catalog is taken unless \<open>useTools\<close> is \<open>false\<close>
  (\<^verbatim>\<open>options.useTools !== false\<close>; the comment in the source: always send tools so
  that the model can continue calling them after receiving results), and the fields
  \<open>tools\<close> and \<open>tool_choice\<close> are set when it is not empty.
\<close>

definition chatRequest :: "manager_state \<Rightarrow> chat_message list \<Rightarrow> chat_options \<Rightarrow> chat_request" where
  "chatRequest s messages options =
     (let model = (case orUndefined (opt_model options) of Some m \<Rightarrow> m | None \<Rightarrow> defaultModel);
          cleanedMessages = cleanMessages messages;
          tools = (if useTools options \<noteq> Some False
                   then convertMCPToolsToOpenRouterFormat s else [])
      in \<lparr>req_model = model, req_messages = cleanedMessages,
          req_tools = (if tools \<noteq> [] then Some tools else None),
          req_tool_choice = (if tools \<noteq> [] then Some ''auto'' else None),
          req_temperature = (case opt_temperature options of Some t \<Rightarrow> t | None \<Rightarrow> 7 / 10),
          req_max_tokens = (case opt_maxTokens options of Some n \<Rightarrow> n | None \<Rightarrow> 4096)\<rparr>)"

text \<open>
  The earlier revision of the service (src/unnamed/part_000) chose the tools otherwise:
  none when the last of the cleaned messages is a tool result, and the schemas as the
  providers gave them, not sanitized.
\<close>

definition convertMCPToolsToOpenRouterFormat_earlier :: "manager_state \<Rightarrow> openrouter_tool list" where
  "convertMCPToolsToOpenRouterFormat_earlier s =
     map (\<lambda>e.
        \<lparr>fn_name = namespacedName (entry_connectionId e) (tool_name (entry_tool e)),
         fn_description =
           (case orUndefined (tool_description (entry_tool e)) of
              Some d \<Rightarrow> d
            | None \<Rightarrow> ''Tool '' @ tool_name (entry_tool e)),
         fn_parameters = inputSchema (entry_tool e)\<rparr>)
       (getAllTools s)"

definition isProcessingToolResults :: "chat_message list \<Rightarrow> bool" where
  "isProcessingToolResults cleanedMessages =
     (case rev cleanedMessages of [] \<Rightarrow> False | lastMessage # earlier \<Rightarrow> msg_role lastMessage = Tool)"

definition chatRequest_earlier ::
  "manager_state \<Rightarrow> chat_message list \<Rightarrow> chat_options \<Rightarrow> chat_request" where
  "chatRequest_earlier s messages options =
     (let model = (case orUndefined (opt_model options) of Some m \<Rightarrow> m | None \<Rightarrow> defaultModel);
          cleanedMessages = cleanMessages messages;
          tools = (if useTools options \<noteq> Some False \<and> \<not> isProcessingToolResults cleanedMessages
                   then convertMCPToolsToOpenRouterFormat_earlier s else [])
      in \<lparr>req_model = model, req_messages = cleanedMessages,
          req_tools = (if tools \<noteq> [] then Some tools else None),
          req_tool_choice = (if tools \<noteq> [] then Some ''auto'' else None),
          req_temperature = (case opt_temperature options of Some t \<Rightarrow> t | None \<Rightarrow> 7 / 10),
          req_max_tokens = (case opt_maxTokens options of Some n \<Rightarrow> n | None \<Rightarrow> 4096)\<rparr>)"

text \<open>
  The content of the reply: \<^verbatim>\<open>assistantMessage.tool_calls ? null : ''\<close> when it is
  undefined. An array is truthy also when it is empty.
\<close>

definition normalizeContent :: "chat_message \<Rightarrow> chat_message" where
  "normalizeContent assistantMessage =
     (if msg_content assistantMessage = Undefined
      then assistantMessage\<lparr>msg_content :=
             (if msg_tool_calls assistantMessage \<noteq> None then Null else Val [])\<rparr>
      else assistantMessage)"

text \<open>The loop over the tool calls of a reply: one after the other, in their order.\<close>

fun executeToolCalls ::
  "'w collaborators \<Rightarrow> manager_state \<Rightarrow> tool_call list \<Rightarrow> 'w \<Rightarrow> tool_result list \<times> 'w" where
  "executeToolCalls co s [] w = ([], w)"
| "executeToolCalls co s (toolCall # later) w =
     (let (result, w') = executeTool co s toolCall w;
          (toolResults, w'') = executeToolCalls co s later w'
      in (result # toolResults, w''))"

definition chat ::
  "'w collaborators \<Rightarrow> manager_state \<Rightarrow> chat_message list \<Rightarrow> chat_options \<Rightarrow> 'w \<Rightarrow>
   (thrown + chat_message \<times> tool_result list option) \<times> 'w" where
  "chat co s messages options w =
     (case getApiKey co of
        None \<Rightarrow>
          (Inl (ErrorObject
             ''OpenRouter API key not configured. Set OPENROUTER_API_KEY in .env''), w)
      | Some apiKey \<Rightarrow>
          (case fetchCompletion co apiKey (chatRequest s messages options) w of
             (Rejected e, w') \<Rightarrow> (Inl e, w')
           | (HttpError m, w') \<Rightarrow> (Inl (ErrorObject m), w')
           | (InvalidJson, w') \<Rightarrow>
               (Inl (ErrorObject ''Invalid JSON response from OpenRouter''), w')
           | (NoChoices, w') \<Rightarrow> (Inl (ErrorObject ''No choices in OpenRouter response''), w')
           | (NoMessage, w') \<Rightarrow> (Inl (ErrorObject ''No message in OpenRouter response''), w')
           | (Reply reply, w') \<Rightarrow>
               let assistantMessage = normalizeContent reply in
               (case msg_tool_calls assistantMessage of
                  None \<Rightarrow> (Inr (assistantMessage, None), w')
                | Some toolCalls \<Rightarrow>
                    if toolCalls \<noteq> [] then
                      let (toolResults, w'') = executeToolCalls co s toolCalls w'
                      in (Inr (assistantMessage, Some toolResults), w'')
                    else (Inr (assistantMessage, None), w'))))"

text \<open>The message \<open>chatWithToolLoop\<close> appends for a tool result.\<close>

definition toolMessage :: "tool_result \<Rightarrow> chat_message" where
  "toolMessage result =
     \<lparr>msg_role = Tool, msg_content = Val (result_output result), msg_tool_calls = None,
      msg_tool_call_id = Some (result_tool_call_id result), msg_name = None, msg_extra = []\<rparr>"

definition systemPrompt :: "'w collaborators \<Rightarrow> chat_message" where
  "systemPrompt co =
     \<lparr>msg_role = System, msg_content = Val (systemPromptText co), msg_tool_calls = None,
      msg_tool_call_id = None, msg_name = None, msg_extra = []\<rparr>"

text \<open>\<^verbatim>\<open>`${maxIterations}`\<close> for a whole number.\<close>

definition stringOfInt :: "int \<Rightarrow> string" where
  "stringOfInt i = (if i < 0 then ''-'' @ stringOfNat (nat (- i)) else stringOfNat (nat i))"

text \<open>
  The \<open>while\<close> loop of \<open>chatWithToolLoop\<close>, over its two local variables: the
  conversation and the iteration count. It ends with the final message, or with the
  value thrown (by \<open>chat\<close>, or by the loop when the bound is reached); the variables
  are returned as they are at that point, so that theorems can speak of them.
\<close>

record loop_end =
  loop_outcome :: "thrown + chat_message"
  conversationMessages :: "chat_message list"
  iteration :: int

function toolLoop ::
  "'w collaborators \<Rightarrow> manager_state \<Rightarrow> chat_options \<Rightarrow> int \<Rightarrow> chat_message list \<Rightarrow> int \<Rightarrow> 'w \<Rightarrow>
   loop_end \<times> 'w" where
  "toolLoop co s options bound conversation iter w =
     (if iter < bound then
        (case chat co s conversation options w of
           (Inl e, w') \<Rightarrow>
             (\<lparr>loop_outcome = Inl e, conversationMessages = conversation,
               iteration = iter + 1\<rparr>, w')
         | (Inr (message, toolResults), w') \<Rightarrow>
             if \<not> hasToolCalls message then
               (\<lparr>loop_outcome = Inr message, conversationMessages = conversation @ [message],
                 iteration = iter + 1\<rparr>, w')
             else
               toolLoop co s options bound
                 (conversation @ [message]
                    @ map toolMessage (case toolResults of None \<Rightarrow> [] | Some rs \<Rightarrow> rs))
                 (iter + 1) w')
      else
        (\<lparr>loop_outcome = Inl (ErrorObject (''Max iterations ('' @ stringOfInt bound
                                @ '') reached without completing'')),
          conversationMessages = conversation, iteration = iter\<rparr>, w))"
  by pat_completeness auto
termination
  by (relation "measure (\<lambda>(co, s, options, bound, conversation, iter, w). nat (bound - iter))") auto

text \<open>
  \<open>chatWithToolLoop\<close>: on success the caller gets the conversation and the final message;
  a throw carries the thrown value only.
\<close>

definition chatWithToolLoop ::
  "'w collaborators \<Rightarrow> manager_state \<Rightarrow> chat_message list \<Rightarrow> chat_options \<Rightarrow> 'w \<Rightarrow>
   (thrown + chat_message list \<times> chat_message) \<times> 'w" where
  "chatWithToolLoop co s messages options w =
     (let bound = (case maxIterations options of Some n \<Rightarrow> n | None \<Rightarrow> 10);
          hasSystemPrompt = list_ex (\<lambda>m. msg_role m = System) messages;
          conversation = (if hasSystemPrompt then messages else systemPrompt co # messages);
          (ended, w') = toolLoop co s options bound conversation 0 w
      in case loop_outcome ended of
           Inl e \<Rightarrow> (Inl e, w')
         | Inr finalMessage \<Rightarrow> (Inr (conversationMessages ended, finalMessage), w'))"

section \<open>Auxiliary notions of the proofs\<close>

text \<open>
  The loops of the sanitizer assign to an object entry by entry. \<open>assignEntries\<close>
  is that loop with the test and the assigned value as parameters; the lemmas about
  it are shared by the outer loop and the loop over \<open>properties\<close>.
\<close>

definition assignEntries ::
  "(string \<Rightarrow> json \<Rightarrow> bool) \<Rightarrow> (string \<Rightarrow> json \<Rightarrow> json) \<Rightarrow> jrecord \<Rightarrow> jrecord \<Rightarrow> jrecord" where
  "assignEntries keep g xs acc =
     fold (\<lambda>(k, v) r. if keep k v then objSet r k (g k v) else r) xs acc"

text \<open>No two entries of a list are the same value for the set.\<close>

fun noRepeat :: "json list \<Rightarrow> bool" where
  "noRepeat [] = True"
| "noRepeat (x # xs) = (\<not> list_ex (\<lambda>y. sameValueZero x y) xs \<and> noRepeat xs)"

text \<open>
  The body of the loop of \<open>sanitizeSchemaDefinition\<close>, taken apart: the test
  that lets a key through, the treatment of one item of a composition array or of one
  field of \<open>properties\<close>, and the value assigned under a key.
\<close>

definition keepKey :: "string \<Rightarrow> json \<Rightarrow> bool" where
  "keepKey key val = (\<not> startsWith key ''$'' \<and> key \<in> set allowedSchemaProps)"

definition sanitizeItem :: "json \<Rightarrow> json" where
  "sanitizeItem item = (if truthyObject item then JObj (sanitizeSchemaDefinition item) else item)"

definition sanitizeValue :: "string \<Rightarrow> json \<Rightarrow> json" where
  "sanitizeValue key val =
     (if key = ''properties'' \<and> truthyObject val then
        JObj (assignEntries (\<lambda>_ _. True) (\<lambda>_. sanitizeItem) (entries val) [])
      else if key = ''items'' \<and> truthyObject val then JObj (sanitizeSchemaDefinition val)
      else if (key = ''anyOf'' \<or> key = ''oneOf'' \<or> key = ''allOf'') \<and> isArray val then
        JArr (map sanitizeItem (arrayItems val))
      else if key = ''additionalProperties'' \<and> truthyObject val then
        JObj (sanitizeSchemaDefinition val)
      else if key = ''required'' \<and> isArray val then JArr (spreadSet (arrayItems val))
      else val)"

text \<open>A record the sanitizer leaves as it is.\<close>

definition fixedRecord :: "jrecord \<Rightarrow> bool" where
  "fixedRecord r \<longleftrightarrow>
     distinct (map fst r) \<and> (\<forall>(k, w) \<in> set r. keepKey k w \<and> sanitizeValue k w = w)"

text \<open>
  The invariant of the manager: the keys of the registry are distinct, every entry is
  filed under its own identifier and has the status \<open>connected\<close>, and no identifier
  is a key of both maps.
\<close>

definition registryOk :: "(string \<times> mcp_connection) list \<Rightarrow> bool" where
  "registryOk cs \<longleftrightarrow>
     distinct (map fst cs) \<and> (\<forall>(k, c) \<in> set cs. conn_id c = k \<and> conn_status c = Connected)"

definition managerInv :: "manager_state \<Rightarrow> bool" where
  "managerInv s \<longleftrightarrow>
     registryOk (connections s) \<and>
     fst ` set (connections s) \<inter> fst ` set (pendingConnections s) = {}"

text \<open>Concrete states and attempts, for the instances of the theorems.\<close>

abbreviation (input) emptyState :: manager_state where
  "emptyState \<equiv> \<lparr>connections = [], pendingConnections = [], oauth_sessions = Map.empty,
                   mcp_connections = [], closeCalls = []\<rparr>"

abbreviation (input) echoTool :: mcp_tool where
  "echoTool \<equiv> \<lparr>tool_name = ''echo'', tool_description = None, inputSchema = []\<rparr>"

abbreviation (input) openAttempt :: attempt where
  "openAttempt \<equiv> \<lparr>uuid = ''c1'', streamable_throws = None, sse_throws = None,
                    hostname = ''mcp.example'', calls = [], session = Inr [echoTool]\<rparr>"

abbreviation (input) authAttempt :: attempt where
  "authAttempt \<equiv> \<lparr>uuid = ''c2'', streamable_throws = None, sse_throws = None,
      hostname = ''mcp.example'',
      calls = [SaveCodeVerifier ''v'', RedirectToAuthorization ''https://auth.example/a''],
      session = Inl (UnauthorizedError ''Unauthorized'')\<rparr>"

abbreviation (input) oneToolState :: manager_state where
  "oneToolState \<equiv>
     \<lparr>connections = [(''c1'', \<lparr>conn_id = ''c1'', conn_url = ''https://mcp.example/sse'',
          conn_name = ''mcp.example'', conn_status = Connected, conn_tools = [echoTool],
          conn_client = Client ''c1'', conn_transport = StreamableHTTP\<rparr>)],
      pendingConnections = [], oauth_sessions = Map.empty, mcp_connections = [],
      closeCalls = []\<rparr>"

abbreviation (input) plainMessage :: "role \<Rightarrow> string \<Rightarrow> chat_message" where
  "plainMessage r text \<equiv>
     \<lparr>msg_role = r, msg_content = Val text, msg_tool_calls = None, msg_tool_call_id = None,
      msg_name = None, msg_extra = []\<rparr>"

abbreviation (input) defaultOptions :: chat_options where
  "defaultOptions \<equiv> \<lparr>opt_model = None, opt_temperature = None, opt_maxTokens = None,
                      useTools = None, maxIterations = None\<rparr>"

abbreviation (input) echoCall :: "string \<Rightarrow> tool_call" where
  "echoCall args \<equiv> \<lparr>call_id = ''call_1'', call_type = ''function'', function_name = ''c1__echo'',
                      function_arguments = args\<rparr>"

abbreviation (input) bareReply :: "tool_call list option \<Rightarrow> chat_message" where
  "bareReply toolCalls \<equiv>
     \<lparr>msg_role = Assistant, msg_content = Undefined, msg_tool_calls = toolCalls,
      msg_tool_call_id = None, msg_name = None, msg_extra = []\<rparr>"

abbreviation (input) demoCollaborators :: "chat_message \<Rightarrow> nat collaborators" where
  "demoCollaborators reply \<equiv>
     \<lparr>OPENROUTER_API_KEY = Some ''sk'',
      jsonParse = (\<lambda>text. if text = ''{}'' then Inr (JObj [])
                          else Inl (ErrorObject ''Unexpected token'')),
      jsonStringify = (\<lambda>j. case j of JObj [(k, JStr m)] \<Rightarrow> k @ '': '' @ m | _ \<Rightarrow> ''json''),
      jsonStringifyIndented = (\<lambda>j. ''json''),
      clientCallTool = (\<lambda>c toolName args w. (Inr (JObj []), w)),
      fetchCompletion = (\<lambda>apiKey request w. (Reply reply, Suc w)),
      systemPromptText = ''system''\<rparr>"

text \<open>
  A backend that answers every request with a message that has at least one tool call;
  a reply together with tool results that answer its calls one for one; and the error
  the loop throws at its bound.
\<close>

definition alwaysCallsTools :: "'w collaborators \<Rightarrow> bool" where
  "alwaysCallsTools co \<longleftrightarrow>
     (\<forall>apiKey request w. \<exists>reply w'.
        fetchCompletion co apiKey request w = (Reply reply, w') \<and> hasToolCalls reply)"

definition answered :: "chat_message \<Rightarrow> tool_result list \<Rightarrow> bool" where
  "answered message toolResults \<longleftrightarrow>
     (\<exists>toolCalls. msg_tool_calls message = Some toolCalls \<and> toolCalls \<noteq> []
        \<and> map result_tool_call_id toolResults = map call_id toolCalls)"

definition boundError :: "int \<Rightarrow> thrown" where
  "boundError bound =
     ErrorObject (''Max iterations ('' @ stringOfInt bound @ '') reached without completing'')"

abbreviation (input) threeOptions :: chat_options where
  "threeOptions \<equiv> \<lparr>opt_model = None, opt_temperature = None, opt_maxTokens = None,
                    useTools = None, maxIterations = Some 3\<rparr>"

abbreviation (input) callingReply :: chat_message where
  "callingReply \<equiv> bareReply (Some [echoCall ''{}''])"

abbreviation (input) nulledReply :: chat_message where
  "nulledReply \<equiv> \<lparr>msg_role = Assistant, msg_content = Null,
      msg_tool_calls = Some [echoCall ''{}''], msg_tool_call_id = None, msg_name = None,
      msg_extra = []\<rparr>"

abbreviation (input) echoResultMessage :: chat_message where
  "echoResultMessage \<equiv> \<lparr>msg_role = Tool, msg_content = Val ''json'', msg_tool_calls = None,
      msg_tool_call_id = Some ''call_1'', msg_name = None, msg_extra = []\<rparr>"

section \<open>Properties of the namespaced names\<close>

lemma splitFrom_not_Nil: "splitFrom sep cur s \<noteq> []"
  by (induction sep cur s rule: splitFrom.induct) auto

lemma join_Cons: "ys \<noteq> [] \<Longrightarrow> join (x # ys) sep = x @ sep @ join ys sep"
  by (cases ys) auto

lemma join_splitFrom: "join (splitFrom sep cur s) sep = cur @ s"
proof (induction sep cur s rule: splitFrom.induct)
  case (1 sep cur)
  show ?case by simp
next
  case (2 sep cur c cs)
  show ?case
  proof (cases "sep \<noteq> [] \<and> prefix sep (c # cs)")
    case True
    then have cut: "sep @ drop (length sep) (c # cs) = c # cs"
      by (metis append_eq_conv_conj prefix_def)
    have "join (splitFrom sep cur (c # cs)) sep
            = cur @ sep @ join (splitFrom sep [] (drop (length sep) (c # cs))) sep"
      using True by (simp add: join_Cons splitFrom_not_Nil)
    also have "\<dots> = cur @ sep @ drop (length sep) (c # cs)"
      using 2(1) True by simp
    finally show ?thesis using cut by simp
  next
    case False
    then show ?thesis using 2(2) by auto
  qed
qed

lemma prefix_sep2: "prefix ''__'' s \<longleftrightarrow> (\<exists>r. s = CHR ''_'' # CHR ''_'' # r)"
  by (auto simp: prefix_def)

lemma splitFrom_skip:
  "\<not> prefix sep (c # cs) \<Longrightarrow> splitFrom sep cur (c # cs) = splitFrom sep (cur @ [c]) cs"
  by simp

lemma splitFrom_past_id:
  "\<not> includesStr cid ''__'' \<Longrightarrow> \<not> endsWith cid ''_'' \<Longrightarrow>
   splitFrom ''__'' cur (cid @ ''__'' @ t) = (cur @ cid) # splitFrom ''__'' [] t"
proof (induction cid arbitrary: cur)
  case Nil
  then show ?case by simp
next
  case (Cons c cs)
  have no_cut: "\<not> prefix ''__'' (c # (cs @ ''__'' @ t))"
  proof
    assume "prefix ''__'' (c # (cs @ ''__'' @ t))"
    then obtain r where r: "c # (cs @ ''__'' @ t) = CHR ''_'' # CHR ''_'' # r"
      using prefix_sep2 by blast
    then have c: "c = CHR ''_''" by simp
    show False
    proof (cases cs)
      case Nil
      with c Cons.prems(2) show False by (simp add: endsWith_def)
    next
      case (Cons d ds)
      with r have "d = CHR ''_''" by simp
      with c Cons Cons.prems(1) show False by (simp add: prefix_def)
    qed
  qed
  have tail1: "\<not> includesStr cs ''__''"
    using Cons.prems(1) by simp
  have tail2: "\<not> endsWith cs ''_''"
    using Cons.prems(2) by (auto simp: endsWith_def suffix_def)
  have "splitFrom ''__'' cur ((c # cs) @ ''__'' @ t)
      = splitFrom ''__'' cur (c # (cs @ ''__'' @ t))"
    by (simp only: append_Cons)
  also have "\<dots> = splitFrom ''__'' (cur @ [c]) (cs @ ''__'' @ t)"
    by (rule splitFrom_skip [OF no_cut])
  also have "\<dots> = ((cur @ [c]) @ cs) # splitFrom ''__'' [] t"
    by (rule Cons.IH [OF tail1 tail2])
  also have "(cur @ [c]) @ cs = cur @ c # cs"
    by (simp only: append_assoc append_Cons append_Nil)
  finally show ?case .
qed

text \<open>
  C6 (as amended). For every connection identifier that neither contains the separator
  \<open>__\<close> nor ends with an underscore, and every tool name (which may itself contain
  the separator), taking the composite name \<open>{connectionId}__{toolName}\<close> apart the
  way \<open>executeTool\<close> does recovers exactly the identifier and the tool name.
\<close>

theorem splitFunctionName_namespacedName:
  assumes "\<not> includesStr connectionId ''__''" and "\<not> endsWith connectionId ''_''"
  shows "splitFunctionName (namespacedName connectionId toolName) = (connectionId, toolName)"
proof -
  have "splitStr (namespacedName connectionId toolName) ''__''
          = connectionId # splitFrom ''__'' [] toolName"
    using splitFrom_past_id [OF assms, of "[]" toolName]
    by (simp add: splitStr_def namespacedName_def)
  then show ?thesis
    by (simp add: splitFunctionName_def join_splitFrom [of "''__''" "[]", simplified])
qed

theorem splitFunctionName_namespacedName_witness:
  "\<not> includesStr ''3f2a-77'' ''__'' \<and> \<not> endsWith ''3f2a-77'' ''_'' \<and>
   splitFunctionName (namespacedName ''3f2a-77'' ''get__item'') = (''3f2a-77'', ''get__item'')"
proof -
  have a: "\<not> includesStr ''3f2a-77'' ''__''" by (simp add: prefix_def)
  have b: "\<not> endsWith ''3f2a-77'' ''_''" by (simp add: endsWith_def suffix_def)
  show ?thesis
    using a b splitFunctionName_namespacedName [OF a b, of "''get__item''"] by blast
qed

text \<open>
  C6 as first stated asks only that the identifier does not contain the
  separator. The identifier \<open>a_\<close> does not, yet the composite \<open>a___b\<close> is cut after
  the \<open>a\<close>: the first occurrence of the separator starts inside the identifier.
\<close>

theorem splitFunctionName_underscore_counterexample:
  "\<not> includesStr ''a_'' ''__'' \<and>
   splitFunctionName (namespacedName ''a_'' ''b'') = (''a'', ''_b'') \<and>
   splitFunctionName (namespacedName ''a_'' ''b'') \<noteq> (''a_'', ''b'')"
  by (simp add: splitFunctionName_def namespacedName_def splitStr_def prefix_def)

section \<open>The sanitizer is idempotent\<close>

declare sanitizeSchemaDefinition.simps [simp del]

lemma assignEntries_Nil [simp]: "assignEntries keep g [] acc = acc"
  by (simp add: assignEntries_def)

lemma assignEntries_Cons [simp]:
  "assignEntries keep g ((k, v) # xs) acc =
     assignEntries keep g xs (if keep k v then objSet acc k (g k v) else acc)"
  by (simp add: assignEntries_def)

lemma update_fresh: "k \<notin> fst ` set al \<Longrightarrow> AList.update k v al = al @ [(k, v)]"
  by (induction al) auto

lemma distinct_objSet: "distinct (map fst obj) \<Longrightarrow> distinct (map fst (objSet obj k v))"
  by (simp add: objSet_def distinct_update)

lemma set_objSet: "set (objSet obj k v) \<subseteq> (if k = ''__proto__'' then {} else {(k, v)}) \<union> set obj"
  unfolding objSet_def by (induction obj) auto

lemma distinct_assignEntries:
  "distinct (map fst acc) \<Longrightarrow> distinct (map fst (assignEntries keep g xs acc))"
  by (induction xs arbitrary: acc) (auto simp: distinct_objSet)

lemma in_assignEntries:
  "(k, w) \<in> set (assignEntries keep g xs acc) \<Longrightarrow>
   (k, w) \<in> set acc \<or> (k \<noteq> ''__proto__'' \<and> (\<exists>v. (k, v) \<in> set xs \<and> keep k v \<and> w = g k v))"
proof (induction xs arbitrary: acc)
  case Nil
  then show ?case by simp
next
  case (Cons kv xs)
  obtain k' v' where kv: "kv = (k', v')" by (cases kv)
  show ?case
  proof (cases "keep k' v'")
    case True
    with Cons.prems kv have "(k, w) \<in> set (assignEntries keep g xs (objSet acc k' (g k' v')))"
      by simp
    from Cons.IH [OF this] show ?thesis
      using set_objSet [of acc k' "g k' v'"] kv True by (auto split: if_splits)
  next
    case False
    with Cons.prems kv have "(k, w) \<in> set (assignEntries keep g xs acc)" by simp
    from Cons.IH [OF this] show ?thesis using kv by auto
  qed
qed

lemma assignEntries_fixed:
  "distinct (map fst xs) \<Longrightarrow>
   (\<And>k v. (k, v) \<in> set xs \<Longrightarrow> keep k v \<and> k \<noteq> ''__proto__'' \<and> g k v = v) \<Longrightarrow>
   fst ` set xs \<inter> fst ` set acc = {} \<Longrightarrow>
   assignEntries keep g xs acc = acc @ xs"
proof (induction xs arbitrary: acc)
  case Nil
  then show ?case by simp
next
  case (Cons kv xs)
  obtain k v where kv: "kv = (k, v)" by (cases kv)
  have here: "keep k v" "k \<noteq> ''__proto__''" "g k v = v"
    using Cons.prems(2) [of k v] kv by auto
  have fresh: "k \<notin> fst ` set acc"
    using Cons.prems(3) kv by auto
  have step: "objSet acc k (g k v) = acc @ [(k, v)]"
    using here fresh by (simp add: objSet_def update_fresh)
  have "assignEntries keep g xs (acc @ [(k, v)]) = (acc @ [(k, v)]) @ xs"
  proof (rule Cons.IH)
    show "distinct (map fst xs)" using Cons.prems(1) by simp
    show "\<And>k v. (k, v) \<in> set xs \<Longrightarrow> keep k v \<and> k \<noteq> ''__proto__'' \<and> g k v = v"
      using Cons.prems(2) by auto
    show "fst ` set xs \<inter> fst ` set (acc @ [(k, v)]) = {}"
      using Cons.prems(1,3) kv by (auto simp: image_iff) 
  qed
  then show ?case using kv here step by simp
qed

lemma assignEntries_idem:
  assumes "\<And>k v. (k, v) \<in> set xs \<Longrightarrow> keep k v \<Longrightarrow> keep k (g k v) \<and> g k (g k v) = g k v"
  shows "assignEntries keep g (assignEntries keep g xs []) [] = assignEntries keep g xs []"
proof -
  let ?out = "assignEntries keep g xs []"
  have "assignEntries keep g ?out [] = [] @ ?out"
  proof (rule assignEntries_fixed)
    show "distinct (map fst ?out)" by (simp add: distinct_assignEntries)
    show "\<And>k w. (k, w) \<in> set ?out \<Longrightarrow> keep k w \<and> k \<noteq> ''__proto__'' \<and> g k w = w"
      using in_assignEntries [of _ _ keep g xs "[]"] assms by fastforce
    show "fst ` set ?out \<inter> fst ` set [] = {}" by simp
  qed
  then show ?thesis by simp
qed

lemma sameValueZero_sym: "sameValueZero u v = sameValueZero v u"
  by (induction u v rule: sameValueZero.induct) auto

lemma noRepeat_snoc:
  "noRepeat (xs @ [v]) \<longleftrightarrow> noRepeat xs \<and> \<not> list_ex (\<lambda>u. sameValueZero u v) xs"
  by (induction xs) (auto simp: list_ex_iff sameValueZero_sym)

lemma noRepeat_setAdd: "noRepeat seen \<Longrightarrow> noRepeat (setAdd v seen)"
  by (simp add: setAdd_def noRepeat_snoc)

lemma noRepeat_fold: "noRepeat seen \<Longrightarrow> noRepeat (fold setAdd xs seen)"
  by (induction xs arbitrary: seen) (auto simp: noRepeat_setAdd)

lemma fold_setAdd_fixed: "noRepeat (seen @ xs) \<Longrightarrow> fold setAdd xs seen = seen @ xs"
proof (induction xs arbitrary: seen)
  case Nil
  then show ?case by simp
next
  case (Cons x xs)
  have split: "seen @ x # xs = (seen @ [x]) @ xs" by simp
  have "noRepeat (seen @ [x])"
    using Cons.prems by (induction seen) (auto simp: list_ex_iff)
  then have "setAdd x seen = seen @ [x]"
    by (simp add: setAdd_def noRepeat_snoc)
  moreover have "fold setAdd xs (seen @ [x]) = (seen @ [x]) @ xs"
    using Cons.prems by (intro Cons.IH) (simp only: split)
  ultimately show ?case by simp
qed

lemma spreadSet_idem: "spreadSet (spreadSet xs) = spreadSet xs"
proof -
  have "noRepeat (spreadSet xs)"
    unfolding spreadSet_def by (rule noRepeat_fold) simp
  then have "fold setAdd (spreadSet xs) [] = [] @ spreadSet xs"
    by (intro fold_setAdd_fixed) simp
  then show ?thesis by (simp add: spreadSet_def)
qed

lemma fieldLoop_eq:
  "(\<lambda>(fieldName, fieldSchema) sanitizedProps.
       if truthyObject fieldSchema
       then objSet sanitizedProps fieldName (JObj (sanitizeSchemaDefinition fieldSchema))
       else objSet sanitizedProps fieldName fieldSchema)
   = (\<lambda>(k, v) r. if True then objSet r k (sanitizeItem v) else r)"
  by (auto simp: fun_eq_iff sanitizeItem_def)

lemma itemMap_eq:
  "(\<lambda>item. if truthyObject item then JObj (sanitizeSchemaDefinition item) else item) = sanitizeItem"
  by (auto simp: fun_eq_iff sanitizeItem_def)

lemma sanitizeSchemaDefinition_loop:
  "sanitizeSchemaDefinition schema = assignEntries keepKey sanitizeValue (entries schema) []"
proof -
  have body: "(\<lambda>(key, val) result.
        if startsWith key ''$'' then result
        else if key \<notin> set allowedSchemaProps then result
        else if key = ''properties'' \<and> truthyObject val then
          objSet result key (JObj
            (fold (\<lambda>(k, v) r. if True then objSet r k (sanitizeItem v) else r) (entries val) []))
        else if key = ''items'' \<and> truthyObject val then
          objSet result key (JObj (sanitizeSchemaDefinition val))
        else if (key = ''anyOf'' \<or> key = ''oneOf'' \<or> key = ''allOf'') \<and> isArray val then
          objSet result key (JArr (map sanitizeItem (arrayItems val)))
        else if key = ''additionalProperties'' \<and> truthyObject val then
          objSet result key (JObj (sanitizeSchemaDefinition val))
        else if key = ''required'' \<and> isArray val then
          objSet result key (JArr (spreadSet (arrayItems val)))
        else objSet result key val)
     = (\<lambda>(k, v) r. if keepKey k v then objSet r k (sanitizeValue k v) else r)"
    by (auto simp: fun_eq_iff keepKey_def sanitizeValue_def assignEntries_def)
  show ?thesis
    by (subst sanitizeSchemaDefinition.simps)
       (simp only: fieldLoop_eq itemMap_eq body assignEntries_def)
qed

lemma sanitizeItem_idem:
  "(truthyObject v \<Longrightarrow> sanitizeSchemaDefinition (JObj (sanitizeSchemaDefinition v)) = sanitizeSchemaDefinition v)
   \<Longrightarrow> sanitizeItem (sanitizeItem v) = sanitizeItem v"
  by (simp add: sanitizeItem_def)

lemma sanitizeValue_idem:
  assumes self: "sanitizeSchemaDefinition (JObj (sanitizeSchemaDefinition v)) = sanitizeSchemaDefinition v"
    and kids: "\<And>k' v'. (k', v') \<in> set (entries v) \<Longrightarrow>
      sanitizeSchemaDefinition (JObj (sanitizeSchemaDefinition v')) = sanitizeSchemaDefinition v'"
    and its: "\<And>i. i \<in> set (arrayItems v) \<Longrightarrow>
      sanitizeSchemaDefinition (JObj (sanitizeSchemaDefinition i)) = sanitizeSchemaDefinition i"
  shows "sanitizeValue k (sanitizeValue k v) = sanitizeValue k v"
proof (cases "k = ''properties'' \<and> truthyObject v")
  case True
  let ?P = "assignEntries (\<lambda>_ _. True) (\<lambda>_. sanitizeItem) (entries v) []"
  have v: "sanitizeValue k v = JObj ?P"
    using True by (simp add: sanitizeValue_def)
  have "assignEntries (\<lambda>_ _. True) (\<lambda>_. sanitizeItem) ?P [] = ?P"
    by (rule assignEntries_idem) (simp add: sanitizeItem_idem kids)
  then have "sanitizeValue k (JObj ?P) = JObj ?P"
    using True by (simp add: sanitizeValue_def)
  then show ?thesis by (simp only: v)
next
  case n1: False
  show ?thesis
  proof (cases "k = ''items'' \<and> truthyObject v")
    case True
    then have v: "sanitizeValue k v = JObj (sanitizeSchemaDefinition v)"
      using n1 by (simp add: sanitizeValue_def)
    have "sanitizeValue k (JObj (sanitizeSchemaDefinition v)) = JObj (sanitizeSchemaDefinition v)"
      using True by (simp add: sanitizeValue_def self)
    then show ?thesis by (simp only: v)
  next
    case n2: False
    show ?thesis
    proof (cases "(k = ''anyOf'' \<or> k = ''oneOf'' \<or> k = ''allOf'') \<and> isArray v")
      case True
      have again: "map sanitizeItem (map sanitizeItem (arrayItems v)) = map sanitizeItem (arrayItems v)"
        by (simp add: sanitizeItem_idem its)
      have v: "sanitizeValue k v = JArr (map sanitizeItem (arrayItems v))"
        using True n1 n2 by (simp add: sanitizeValue_def)
      have "sanitizeValue k (JArr (map sanitizeItem (arrayItems v)))
              = JArr (map sanitizeItem (map sanitizeItem (arrayItems v)))"
        using True by (auto simp: sanitizeValue_def)
      then show ?thesis by (simp only: v again)
    next
      case n3: False
      show ?thesis
      proof (cases "k = ''additionalProperties'' \<and> truthyObject v")
        case True
        then have v: "sanitizeValue k v = JObj (sanitizeSchemaDefinition v)"
          by (simp add: sanitizeValue_def)
        have "sanitizeValue k (JObj (sanitizeSchemaDefinition v)) = JObj (sanitizeSchemaDefinition v)"
          using True by (simp add: sanitizeValue_def self)
        then show ?thesis by (simp only: v)
      next
        case n4: False
        show ?thesis
        proof (cases "k = ''required'' \<and> isArray v")
          case True
          then have v: "sanitizeValue k v = JArr (spreadSet (arrayItems v))"
            by (simp add: sanitizeValue_def)
          have "sanitizeValue k (JArr (spreadSet (arrayItems v))) = JArr (spreadSet (arrayItems v))"
            using True by (simp add: sanitizeValue_def spreadSet_idem)
          then show ?thesis by (simp only: v)
        next
          case n5: False
          have "sanitizeValue k v = v"
            unfolding sanitizeValue_def using n1 n2 n3 n4 n5 by (simp only: if_False)
          then show ?thesis by simp
        qed
      qed
    qed
  qed
qed

lemma sanitizeSchemaDefinition_fix:
  "sanitizeSchemaDefinition (JObj (sanitizeSchemaDefinition x)) = sanitizeSchemaDefinition x"
proof (induction x rule: measure_induct_rule [of size])
  case (less x)
  have "assignEntries keepKey sanitizeValue (assignEntries keepKey sanitizeValue (entries x) []) []
          = assignEntries keepKey sanitizeValue (entries x) []"
  proof (rule assignEntries_idem)
    fix k v
    assume kv: "(k, v) \<in> set (entries x)" and keep: "keepKey k v"
    have small: "size v < size x" using kv by (rule size_entries)
    have "sanitizeValue k (sanitizeValue k v) = sanitizeValue k v"
    proof (rule sanitizeValue_idem)
      show "sanitizeSchemaDefinition (JObj (sanitizeSchemaDefinition v)) = sanitizeSchemaDefinition v"
        using small by (rule less.IH)
    next
      fix k' v'
      assume "(k', v') \<in> set (entries v)"
      then have "size v' < size v" by (rule size_entries)
      with small have "size v' < size x" by simp
      then show "sanitizeSchemaDefinition (JObj (sanitizeSchemaDefinition v')) = sanitizeSchemaDefinition v'"
        by (rule less.IH)
    next
      fix i
      assume "i \<in> set (arrayItems v)"
      then have "size i < size v" by (rule size_arrayItems)
      with small have "size i < size x" by simp
      then show "sanitizeSchemaDefinition (JObj (sanitizeSchemaDefinition i)) = sanitizeSchemaDefinition i"
        by (rule less.IH)
    qed
    with keep show "keepKey k (sanitizeValue k v) \<and> sanitizeValue k (sanitizeValue k v) = sanitizeValue k v"
      by (simp add: keepKey_def)
  qed
  then show ?case by (simp add: sanitizeSchemaDefinition_loop)
qed

lemma keepKey_not_proto: "keepKey k w \<Longrightarrow> k \<noteq> ''__proto__''"
  by (auto simp: keepKey_def allowedSchemaProps_def)

lemma fixedRecord_sanitizeSchemaDefinition: "fixedRecord (sanitizeSchemaDefinition x)"
proof -
  have "sanitizeValue k w = w \<and> keepKey k w" if "(k, w) \<in> set (sanitizeSchemaDefinition x)" for k w
  proof -
    from that obtain v where v: "keepKey k v" "w = sanitizeValue k v"
      using in_assignEntries [of k w keepKey sanitizeValue "entries x" "[]"]
      by (auto simp: sanitizeSchemaDefinition_loop)
    have "sanitizeValue k (sanitizeValue k v) = sanitizeValue k v"
      by (rule sanitizeValue_idem) (rule sanitizeSchemaDefinition_fix)+
    with v show ?thesis by (simp add: keepKey_def)
  qed
  then show ?thesis
    by (auto simp: fixedRecord_def sanitizeSchemaDefinition_loop distinct_assignEntries)
qed

lemma sanitizeSchemaDefinition_fixedRecord:
  assumes "fixedRecord r"
  shows "sanitizeSchemaDefinition (JObj r) = r"
proof -
  have "assignEntries keepKey sanitizeValue r [] = [] @ r"
  proof (rule assignEntries_fixed)
    show "distinct (map fst r)" using assms by (simp add: fixedRecord_def)
    show "\<And>k v. (k, v) \<in> set r \<Longrightarrow> keepKey k v \<and> k \<noteq> ''__proto__'' \<and> sanitizeValue k v = v"
      using assms keepKey_not_proto by (fastforce simp: fixedRecord_def)
    show "fst ` set r \<inter> fst ` set [] = {}" by simp
  qed
  then show ?thesis by (simp add: sanitizeSchemaDefinition_loop)
qed

lemma fixedRecord_objSet:
  assumes "fixedRecord r" and "keepKey k v" and "sanitizeValue k v = v"
  shows "fixedRecord (objSet r k v)"
  using assms set_objSet [of r k v]
  by (auto simp: fixedRecord_def distinct_objSet split: if_splits)

lemma getProp_objSet:
  "k \<noteq> ''__proto__'' \<Longrightarrow> getProp (objSet r k v) k' = (if k' = k then Some v else getProp r k')"
  by (simp add: getProp_def objSet_def update_conv')

lemma keepKey_type: "keepKey ''type'' v"
  by (simp add: keepKey_def allowedSchemaProps_def startsWith_def)

lemma keepKey_properties: "keepKey ''properties'' v"
  by (simp add: keepKey_def allowedSchemaProps_def startsWith_def)

lemma sanitizeValue_type: "sanitizeValue ''type'' (JStr ''object'') = JStr ''object''"
  by (simp add: sanitizeValue_def)

lemma sanitizeValue_properties: "sanitizeValue ''properties'' (JObj []) = JObj []"
  by (simp add: sanitizeValue_def)

text \<open>
  C7. For every input schema, sanitizing the sanitized schema gives the sanitized
  schema again: \<open>sanitizeSchema\<close> is idempotent. The equality is that of the
  documents entry by entry, the order of the entries included.
\<close>

theorem sanitizeSchema_idempotent:
  "sanitizeSchema (sanitizeSchema schema) = sanitizeSchema schema"
proof -
  define s0 where "s0 = sanitizeSchemaDefinition (JObj schema)"
  define s1 where "s1 = (if falsyProp s0 ''type'' then objSet s0 ''type'' (JStr ''object'') else s0)"
  define s2 where "s2 = (if getProp s1 ''type'' = Some (JStr ''object'') \<and> falsyProp s1 ''properties''
                         then objSet s1 ''properties'' (JObj []) else s1)"
  have out: "sanitizeSchema schema = s2"
    by (simp add: sanitizeSchema_def s0_def s1_def s2_def Let_def)
  have f0: "fixedRecord s0"
    unfolding s0_def by (rule fixedRecord_sanitizeSchemaDefinition)
  have f1: "fixedRecord s1"
    unfolding s1_def using f0 by (simp add: fixedRecord_objSet keepKey_type sanitizeValue_type)
  have f2: "fixedRecord s2"
    unfolding s2_def using f1
    by (simp add: fixedRecord_objSet keepKey_properties sanitizeValue_properties)
  have t1: "\<not> falsyProp s1 ''type''"
    unfolding s1_def by (simp add: falsyProp_def getProp_objSet)
  have type2: "getProp s2 ''type'' = getProp s1 ''type''"
    unfolding s2_def by (simp add: getProp_objSet)
  have t2: "\<not> falsyProp s2 ''type''"
    using t1 type2 by (simp add: falsyProp_def)
  have p2: "\<not> (getProp s2 ''type'' = Some (JStr ''object'') \<and> falsyProp s2 ''properties'')"
    unfolding type2 unfolding s2_def by (simp add: falsyProp_def getProp_objSet)
  have "sanitizeSchema s2 = s2"
    using t2 p2 by (auto simp: sanitizeSchema_def sanitizeSchemaDefinition_fixedRecord [OF f2] Let_def)
  then show ?thesis by (simp only: out)
qed

section \<open>Upserts of the credential store\<close>

lemma coalesce_None [simp]: "coalesce None b = b"
  by simp




section \<open>The registry and the pending connections\<close>

lemma set_update_subset: "set (AList.update k v al) \<subseteq> insert (k, v) (set al)"
  by (induction al) auto

lemma keys_update: "fst ` set (AList.update k v al) = insert k (fst ` set al)"
  by (induction al) auto

lemma keys_delete: "fst ` set (AList.delete k al) = fst ` set al - {k}"
  by (induction al) auto

lemma set_delete_subset: "set (AList.delete k al) \<subseteq> set al"
  by (induction al) auto

lemma registryOk_update:
  "registryOk cs \<Longrightarrow> conn_id c = k \<Longrightarrow> conn_status c = Connected \<Longrightarrow>
   registryOk (AList.update k c cs)"
  using set_update_subset [of k c cs]
  by (auto simp: registryOk_def distinct_update)

lemma registryOk_delete: "registryOk cs \<Longrightarrow> registryOk (AList.delete k cs)"
  using set_delete_subset [of k cs]
  by (auto simp: registryOk_def distinct_delete)

lemma map_of_None_keys: "map_of al k = None \<longleftrightarrow> k \<notin> fst ` set al"
  by (simp add: map_of_eq_None_iff)

lemma managerInv_connect:
  assumes "managerInv s" and "uuid env \<notin> fst ` set (connections s)"
    and "uuid env \<notin> fst ` set (pendingConnections s)"
  shows "managerInv (snd (connect env url nm s))"
  using assms
  by (auto simp: connect_def managerInv_def Let_def registryOk_update keys_update
           split: sum.splits option.splits thrown.splits prod.splits)

lemma managerInv_complete:
  assumes "managerInv s"
  shows "managerInv (snd (completeOAuthConnection env cid code s))"
  using assms
  by (auto simp: completeOAuthConnection_def managerInv_def Let_def registryOk_update
                 keys_update keys_delete
           split: sum.splits option.splits)

lemma managerInv_disconnect:
  assumes "managerInv s"
  shows "managerInv (snd (disconnect b ident s))"
  using assms
  by (auto simp: disconnect_def managerInv_def Let_def registryOk_delete keys_delete
           split: option.splits)

lemma reconnect_keeps:
  assumes "registryOk (connections s)"
  shows "registryOk (connections (snd (reconnect env ident url nm s)))
       \<and> pendingConnections (snd (reconnect env ident url nm s)) = pendingConnections s"
  using assms
  by (auto simp: reconnect_def Let_def registryOk_update
           split: sum.splits option.splits prod.splits)

lemma reconnect_loop_keeps:
  "registryOk (connections s) \<Longrightarrow>
   registryOk (connections (fold (\<lambda>(ident, saved) s.
        case reconnect (envOf ident) ident (row_url saved) (row_name saved) s of
          (Inr u, s') \<Rightarrow> s'
        | (Inl err, s') \<Rightarrow>
            s'\<lparr>mcp_connections := mcpDb_updateStatus (mcp_connections s') ident ''disconnected''\<rparr>)
      rows s))
   \<and> pendingConnections (fold (\<lambda>(ident, saved) s.
        case reconnect (envOf ident) ident (row_url saved) (row_name saved) s of
          (Inr u, s') \<Rightarrow> s'
        | (Inl err, s') \<Rightarrow>
            s'\<lparr>mcp_connections := mcpDb_updateStatus (mcp_connections s') ident ''disconnected''\<rparr>)
      rows s) = pendingConnections s"
proof (induction rows arbitrary: s)
  case Nil
  then show ?case by simp
next
  case (Cons row rows)
  obtain ident saved where row: "row = (ident, saved)" by (cases row)
  let ?r = "reconnect (envOf ident) ident (row_url saved) (row_name saved) s"
  let ?s1 = "case ?r of
          (Inr u, s') \<Rightarrow> s'
        | (Inl err, s') \<Rightarrow>
            s'\<lparr>mcp_connections := mcpDb_updateStatus (mcp_connections s') ident ''disconnected''\<rparr>"
  have c: "connections ?s1 = connections (snd ?r)" and p: "pendingConnections ?s1 = pendingConnections (snd ?r)"
    by (auto split: prod.splits sum.splits)
  have ok: "registryOk (connections ?s1)" and pend: "pendingConnections ?s1 = pendingConnections s"
    using reconnect_keeps [OF Cons.prems, of "envOf ident" ident "row_url saved" "row_name saved"] c p
    by auto
  from Cons.IH [OF ok] pend row show ?case by simp
qed

lemma managerInv_startup:
  assumes "connections s = []" and "pendingConnections s = []"
  shows "managerInv (reconnectSavedConnections envOf s)"
proof -
  have "registryOk (connections s)" using assms by (simp add: registryOk_def)
  from reconnect_loop_keeps [OF this, of envOf "mcpDb_getAll (mcp_connections s)"] assms
  show ?thesis by (simp add: managerInv_def reconnectSavedConnections_def)
qed

lemma reachable_managerInv: "reachable s \<Longrightarrow> managerInv s"
proof (induction rule: reachable.induct)
  case (startup s envOf)
  then show ?case by (rule managerInv_startup)
next
  case (after_connect s env url nm)
  then show ?case by (simp add: managerInv_connect)
next
  case (after_complete s env cid code)
  then show ?case by (simp add: managerInv_complete)
next
  case (after_disconnect s b ident)
  then show ?case by (simp add: managerInv_disconnect)
qed

lemma getAllTools_owner:
  assumes "registryOk cs" and "e \<in> set (concat (map (\<lambda>(key, connection).
        map (\<lambda>t. \<lparr>entry_connectionId = conn_id connection,
                   entry_connectionName = conn_name connection, entry_tool = t\<rparr>)
          (conn_tools connection)) cs))"
  shows "\<exists>c. map_of cs (entry_connectionId e) = Some c \<and> conn_status c = Connected
           \<and> conn_id c = entry_connectionId e \<and> entry_tool e \<in> set (conn_tools c)"
proof -
  from assms(2) obtain k c t where kc: "(k, c) \<in> set cs" and t: "t \<in> set (conn_tools c)"
    and e: "e = \<lparr>entry_connectionId = conn_id c, entry_connectionName = conn_name c, entry_tool = t\<rparr>"
    by auto
  from assms(1) kc have "conn_id c = k" "conn_status c = Connected" "map_of cs k = Some c"
    by (auto simp: registryOk_def)
  with t e show ?thesis by auto
qed

text \<open>
  C1. In every state the manager can reach, every entry of the catalog that
  \<open>getAllTools\<close> returns belongs to a connection of the registry whose status is
  \<open>connected\<close>; no tool of a connection with another status appears. \<open>getAllTools\<close>
  itself does not look at the status: every entry of the registry is connected.
\<close>

theorem getAllTools_only_connected:
  assumes "reachable s" and "e \<in> set (getAllTools s)"
  shows "\<exists>c. map_of (connections s) (entry_connectionId e) = Some c
           \<and> conn_status c = Connected \<and> entry_tool e \<in> set (conn_tools c)"
proof -
  have "registryOk (connections s)"
    using reachable_managerInv [OF assms(1)] by (simp add: managerInv_def)
  from getAllTools_owner [OF this, of e] assms(2) show ?thesis
    by (auto simp: getAllTools_def)
qed

text \<open>
  C2. In every state reached by \<open>connect\<close>, \<open>completeOAuthConnection\<close> and
  \<open>disconnect\<close> run one after the other, no identifier has both an entry in the
  registry and a pending entry.
\<close>

theorem registry_pending_exclusive:
  assumes "reachable s"
  shows "\<not> (map_of (connections s) ident \<noteq> None \<and> map_of (pendingConnections s) ident \<noteq> None)"
  using reachable_managerInv [OF assms]
  by (auto simp: managerInv_def map_of_None_keys)

lemma reachable_emptyState: "reachable emptyState"
  using reachable.startup [of emptyState "\<lambda>_. openAttempt"]
  by (simp add: reconnectSavedConnections_def mcpDb_getAll_def)

theorem getAllTools_only_connected_witness:
  "reachable (snd (connect openAttempt ''https://mcp.example/sse'' None emptyState))
   \<and> \<lparr>entry_connectionId = ''c1'', entry_connectionName = ''mcp.example'', entry_tool = echoTool\<rparr>
       \<in> set (getAllTools (snd (connect openAttempt ''https://mcp.example/sse'' None emptyState)))
   \<and> (\<exists>c. map_of (connections (snd (connect openAttempt ''https://mcp.example/sse'' None emptyState)))
              ''c1'' = Some c
          \<and> conn_status c = Connected \<and> echoTool \<in> set (conn_tools c))"
proof -
  let ?s = "snd (connect openAttempt ''https://mcp.example/sse'' None emptyState)"
  let ?e = "\<lparr>entry_connectionId = ''c1'', entry_connectionName = ''mcp.example'', entry_tool = echoTool\<rparr>"
  have r: "reachable ?s"
    using reachable.after_connect [OF reachable_emptyState, of openAttempt] by simp
  have m: "?e \<in> set (getAllTools ?s)"
    by (simp add: getAllTools_def connect_def chooseTransport_def providerCalls_def Let_def)
  from getAllTools_only_connected [OF r m] r m show ?thesis by simp
qed

theorem registry_pending_exclusive_witness:
  "reachable (snd (connect authAttempt ''https://mcp.example/sse'' None emptyState))
   \<and> map_of (pendingConnections (snd (connect authAttempt ''https://mcp.example/sse'' None emptyState)))
        ''c2'' \<noteq> None
   \<and> \<not> (map_of (connections (snd (connect authAttempt ''https://mcp.example/sse'' None emptyState)))
          ''c2'' \<noteq> None
        \<and> map_of (pendingConnections (snd (connect authAttempt ''https://mcp.example/sse'' None emptyState)))
          ''c2'' \<noteq> None)"
proof -
  let ?s = "snd (connect authAttempt ''https://mcp.example/sse'' None emptyState)"
  have r: "reachable ?s"
    using reachable.after_connect [OF reachable_emptyState, of authAttempt] by simp
  have p: "map_of (pendingConnections ?s) ''c2'' \<noteq> None"
    by (simp add: connect_def chooseTransport_def providerCalls_def Let_def
          getAuthorizationUrl_def oauthDb_get_def oauthDb_upsert_def upsertOAuthSession_def
          no_data_def)
  from registry_pending_exclusive [OF r, of "''c2''"] r p show ?thesis by blast
qed

text \<open>
  C9. \<open>disconnect\<close> on an identifier that is in neither map returns false and leaves
  the state as it is: no session is closed, no row is deleted. On an identifier in
  either map it returns true, whether or not closing the session throws, and afterwards
  the identifier has no entry in the registry, no pending entry, no credential row and
  no session-store row; \<open>close\<close> is called on the live session, if there is one.
\<close>

theorem disconnect_contract:
  "(map_of (connections s) ident = None \<and> map_of (pendingConnections s) ident = None \<longrightarrow>
      disconnect close_throws ident s = (False, s))
   \<and> (map_of (connections s) ident \<noteq> None \<or> map_of (pendingConnections s) ident \<noteq> None \<longrightarrow>
      fst (disconnect close_throws ident s) = True
      \<and> map_of (connections (snd (disconnect close_throws ident s))) ident = None
      \<and> map_of (pendingConnections (snd (disconnect close_throws ident s))) ident = None
      \<and> oauth_sessions (snd (disconnect close_throws ident s)) ident = None
      \<and> map_of (mcp_connections (snd (disconnect close_throws ident s))) ident = None
      \<and> closeCalls (snd (disconnect close_throws ident s))
          = closeCalls s @ (case map_of (connections s) ident of
                              None \<Rightarrow> [] | Some c \<Rightarrow> [conn_client c]))"
  by (auto simp: disconnect_def Let_def delete_conv' deleteOAuthSession_def oauthDb_delete_def
        mcpDb_delete_def split: option.splits)

theorem disconnect_contract_witness:
  "map_of (connections emptyState) ''c9'' = None
   \<and> map_of (pendingConnections emptyState) ''c9'' = None
   \<and> disconnect False ''c9'' emptyState = (False, emptyState)
   \<and> map_of (connections (snd (connect openAttempt ''https://mcp.example/sse'' None emptyState)))
        ''c1'' \<noteq> None
   \<and> fst (disconnect True ''c1''
        (snd (connect openAttempt ''https://mcp.example/sse'' None emptyState))) = True
   \<and> map_of (connections (snd (disconnect True ''c1''
        (snd (connect openAttempt ''https://mcp.example/sse'' None emptyState))))) ''c1'' = None
   \<and> map_of (mcp_connections (snd (disconnect True ''c1''
        (snd (connect openAttempt ''https://mcp.example/sse'' None emptyState))))) ''c1'' = None
   \<and> closeCalls (snd (disconnect True ''c1''
        (snd (connect openAttempt ''https://mcp.example/sse'' None emptyState)))) = [Client ''c1'']"
proof -
  let ?s = "snd (connect openAttempt ''https://mcp.example/sse'' None emptyState)"
  have a: "map_of (connections emptyState) ''c9'' = None \<and>
           map_of (pendingConnections emptyState) ''c9'' = None" by simp
  have b: "map_of (connections ?s) ''c1''
      = Some \<lparr>conn_id = ''c1'', conn_url = ''https://mcp.example/sse'', conn_name = ''mcp.example'',
           conn_status = Connected, conn_tools = [echoTool], conn_client = Client ''c1'',
           conn_transport = StreamableHTTP\<rparr>"
    by (simp add: connect_def chooseTransport_def providerCalls_def Let_def)
  have c: "closeCalls ?s = []"
    by (simp add: connect_def chooseTransport_def providerCalls_def Let_def)
  from disconnect_contract [of emptyState "''c9''" False] a
  have 1: "disconnect False ''c9'' emptyState = (False, emptyState)" by blast
  from disconnect_contract [of ?s "''c1''" True] b c
  have 2: "fst (disconnect True ''c1'' ?s) = True
      \<and> map_of (connections (snd (disconnect True ''c1'' ?s))) ''c1'' = None
      \<and> map_of (mcp_connections (snd (disconnect True ''c1'' ?s))) ''c1'' = None
      \<and> closeCalls (snd (disconnect True ''c1'' ?s)) = [Client ''c1'']"
    by simp
  from a b 1 2 show ?thesis by simp
qed

section \<open>The orchestrator\<close>

declare toolLoop.simps [simp del]

text \<open>
  C3 (as amended). The request \<open>chat\<close> builds carries the catalog exactly when
  \<open>useTools\<close> is not \<open>false\<close> and the catalog is not empty, and carries no tools
  otherwise. The role of the last message plays no part: with a tool result appended
  the request carries the same tools. The parameters of every tool of the catalog are
  its schema sanitized.
\<close>

theorem chatRequest_tools:
  "req_tools (chatRequest s messages options) =
     (if useTools options \<noteq> Some False \<and> convertMCPToolsToOpenRouterFormat s \<noteq> []
      then Some (convertMCPToolsToOpenRouterFormat s) else None)
   \<and> req_tools (chatRequest s (messages @ [toolResult\<lparr>msg_role := Tool\<rparr>]) options)
       = req_tools (chatRequest s messages options)
   \<and> map fn_parameters (convertMCPToolsToOpenRouterFormat s)
       = map (\<lambda>e. sanitizeSchema (inputSchema (entry_tool e))) (getAllTools s)"
proof (intro conjI)
  show "req_tools (chatRequest s messages options) =
     (if useTools options \<noteq> Some False \<and> convertMCPToolsToOpenRouterFormat s \<noteq> []
      then Some (convertMCPToolsToOpenRouterFormat s) else None)"
    by (simp add: chatRequest_def Let_def)
  show "req_tools (chatRequest s (messages @ [toolResult\<lparr>msg_role := Tool\<rparr>]) options)
       = req_tools (chatRequest s messages options)"
    by (simp add: chatRequest_def Let_def)
  show "map fn_parameters (convertMCPToolsToOpenRouterFormat s)
       = map (\<lambda>e. sanitizeSchema (inputSchema (entry_tool e))) (getAllTools s)"
    by (simp add: convertMCPToolsToOpenRouterFormat_def)
qed

lemma chatRequest_earlier_after_tool_result:
  "messages \<noteq> [] \<Longrightarrow> msg_role (last messages) = Tool \<Longrightarrow>
   req_tools (chatRequest_earlier s messages options) = None"
proof -
  assume ne: "messages \<noteq> []" and t: "msg_role (last messages) = Tool"
  then obtain ms m where m: "messages = ms @ [m]" by (metis append_butlast_last_id)
  with t have "msg_role m = Tool" by simp
  then have "isProcessingToolResults (cleanMessages messages)"
    by (simp add: m isProcessingToolResults_def cleanMessages_def cleanMessage_def Let_def)
  then show ?thesis by (simp add: chatRequest_earlier_def Let_def)
qed

lemma sanitizeSchema_empty: "sanitizeSchema [] = [(''type'', JStr ''object''), (''properties'', JObj [])]"
  by (simp add: sanitizeSchema_def sanitizeSchemaDefinition.simps Let_def falsyProp_def
        getProp_def objSet_def)

text \<open>
  C3 as first stated has no catalog sent after a tool result unless \<open>useTools\<close>
  forces it. With one connected tool, a tool result as the last message and \<open>useTools\<close>
  not set, the request carries the catalog. The earlier revision does omit it there,
  but what it sends on other turns is the schema as given (here the empty object), not
  the sanitized one: neither revision does what the sentence says.
\<close>

theorem chatRequest_after_tool_result_counterexample:
  "msg_role (last [plainMessage User ''hi'', plainMessage Tool ''{}'']) = Tool
   \<and> useTools defaultOptions \<noteq> Some True
   \<and> req_tools (chatRequest oneToolState [plainMessage User ''hi'', plainMessage Tool ''{}'']
        defaultOptions)
     = Some [\<lparr>fn_name = ''c1__echo'', fn_description = ''Tool echo'',
              fn_parameters = [(''type'', JStr ''object''), (''properties'', JObj [])]\<rparr>]
   \<and> req_tools (chatRequest_earlier oneToolState
        [plainMessage User ''hi'', plainMessage Tool ''{}''] defaultOptions) = None
   \<and> req_tools (chatRequest_earlier oneToolState [plainMessage User ''hi''] defaultOptions)
     = Some [\<lparr>fn_name = ''c1__echo'', fn_description = ''Tool echo'', fn_parameters = []\<rparr>]"
  by (simp add: chatRequest_def chatRequest_earlier_def Let_def
        convertMCPToolsToOpenRouterFormat_def convertMCPToolsToOpenRouterFormat_earlier_def
        getAllTools_def namespacedName_def sanitizeSchema_empty isProcessingToolResults_def
        cleanMessages_def cleanMessage_def)


lemma chat_reply:
  assumes "getApiKey co = Some apiKey"
    and "fetchCompletion co apiKey (chatRequest s messages options) w = (Reply reply, w1)"
  shows "chat co s messages options w =
     (case msg_tool_calls (normalizeContent reply) of
        None \<Rightarrow> (Inr (normalizeContent reply, None), w1)
      | Some toolCalls \<Rightarrow>
          if toolCalls \<noteq> [] then
            (Inr (normalizeContent reply, Some (fst (executeToolCalls co s toolCalls w1))),
             snd (executeToolCalls co s toolCalls w1))
          else (Inr (normalizeContent reply, None), w1))"
  using assms by (simp add: chat_def Let_def split: option.splits prod.splits)



lemma executeTool_id: "result_tool_call_id (fst (executeTool co s toolCall v)) = call_id toolCall"
  by (simp add: executeTool_def Let_def split: prod.splits sum.splits)


lemma executeToolCalls_ids:
  "map result_tool_call_id (fst (executeToolCalls co s toolCalls v)) = map call_id toolCalls"
  by (induction toolCalls arbitrary: v)
     (simp_all add: case_prod_unfold Let_def executeTool_id)










lemma stringOfInt_3: "stringOfInt 3 = ''3''"
  by code_simp

lemma toolLoop_step:
  assumes key: "getApiKey co = Some apiKey" and always: "alwaysCallsTools co"
    and less: "iter < bound"
  shows "\<exists>message toolResults w'. answered message toolResults
     \<and> toolLoop co s options bound conversation iter w
         = toolLoop co s options bound
             (conversation @ message # map toolMessage toolResults) (iter + 1) w'"
proof -
  from always obtain reply w1 where
      f: "fetchCompletion co apiKey (chatRequest s conversation options) w = (Reply reply, w1)"
    and h: "hasToolCalls reply"
    unfolding alwaysCallsTools_def by blast
  from h obtain toolCalls where tc: "msg_tool_calls reply = Some toolCalls" "toolCalls \<noteq> []"
    by (auto simp: hasToolCalls_def split: option.splits)
  let ?message = "normalizeContent reply"
  let ?results = "fst (executeToolCalls co s toolCalls w1)"
  have tc': "msg_tool_calls ?message = Some toolCalls"
    using tc by (simp add: normalizeContent_def)
  have c: "chat co s conversation options w
      = (Inr (?message, Some ?results), snd (executeToolCalls co s toolCalls w1))"
    using tc by (simp add: chat_reply [OF key f] tc')
  have a: "answered ?message ?results"
    using tc tc' by (auto simp: answered_def executeToolCalls_ids)
  have "toolLoop co s options bound conversation iter w
      = toolLoop co s options bound (conversation @ ?message # map toolMessage ?results)
          (iter + 1) (snd (executeToolCalls co s toolCalls w1))"
    using less tc tc' by (subst toolLoop.simps) (simp add: c hasToolCalls_def)
  with a show ?thesis by blast
qed

lemma toolLoop_bound_reached:
  "\<not> iter < bound \<Longrightarrow>
   toolLoop co s options bound conversation iter w
     = (\<lparr>loop_outcome = Inl (boundError bound), conversationMessages = conversation,
         iteration = iter\<rparr>, w)"
  by (subst toolLoop.simps) (simp add: boundError_def)

text \<open>
  C4 (as amended). With a backend that answers every request with at least one tool
  call and \<open>maxIterations = 3\<close>, \<open>chatWithToolLoop\<close> throws the error that names the
  bound 3, and the caller gets that error only, no transcript. The loop has then run
  3 iterations, and its own conversation holds, after the starting messages, the 3
  replies, each followed by the tool results that answer its calls, the third reply
  included.
\<close>

theorem chatWithToolLoop_bound_three:
  assumes key: "getApiKey co = Some apiKey" and always: "alwaysCallsTools co"
    and three: "maxIterations options = Some 3"
  shows "fst (chatWithToolLoop co s messages options w)
           = Inl (ErrorObject ''Max iterations (3) reached without completing'')
     \<and> (\<exists>a1 r1 a2 r2 a3 r3 w'.
          toolLoop co s options 3
            (if list_ex (\<lambda>m. msg_role m = System) messages then messages
             else systemPrompt co # messages) 0 w
          = (\<lparr>loop_outcome = Inl (ErrorObject ''Max iterations (3) reached without completing''),
              conversationMessages =
                (if list_ex (\<lambda>m. msg_role m = System) messages then messages
                 else systemPrompt co # messages)
                @ a1 # map toolMessage r1 @ a2 # map toolMessage r2 @ a3 # map toolMessage r3,
              iteration = 3\<rparr>, w')
          \<and> answered a1 r1 \<and> answered a2 r2 \<and> answered a3 r3)"
proof -
  define start where "start = (if list_ex (\<lambda>m. msg_role m = System) messages then messages
             else systemPrompt co # messages)"
  obtain a1 r1 w1 where s1: "answered a1 r1"
    "toolLoop co s options 3 start 0 w
       = toolLoop co s options 3 (start @ a1 # map toolMessage r1) 1 w1"
    using toolLoop_step [OF key always, of 0 3 s options start w] by auto
  obtain a2 r2 w2 where s2: "answered a2 r2"
    "toolLoop co s options 3 (start @ a1 # map toolMessage r1) 1 w1
       = toolLoop co s options 3 ((start @ a1 # map toolMessage r1) @ a2 # map toolMessage r2) 2 w2"
    using toolLoop_step [OF key always, of 1 3 s options "start @ a1 # map toolMessage r1" w1]
    by auto
  obtain a3 r3 w3 where s3: "answered a3 r3"
    "toolLoop co s options 3 ((start @ a1 # map toolMessage r1) @ a2 # map toolMessage r2) 2 w2
       = toolLoop co s options 3
           (((start @ a1 # map toolMessage r1) @ a2 # map toolMessage r2)
              @ a3 # map toolMessage r3) 3 w3"
    using toolLoop_step [OF key always, of 2 3 s options
        "(start @ a1 # map toolMessage r1) @ a2 # map toolMessage r2" w2]
    by auto
  have loop: "toolLoop co s options 3 start 0 w
      = (\<lparr>loop_outcome = Inl (ErrorObject ''Max iterations (3) reached without completing''),
          conversationMessages =
            start @ a1 # map toolMessage r1 @ a2 # map toolMessage r2 @ a3 # map toolMessage r3,
          iteration = 3\<rparr>, w3)"
    unfolding s1(2) s2(2) s3(2)
    by (simp add: toolLoop_bound_reached boundError_def stringOfInt_3)
  have "fst (chatWithToolLoop co s messages options w)
           = Inl (ErrorObject ''Max iterations (3) reached without completing'')"
    using loop three by (simp add: chatWithToolLoop_def Let_def start_def [symmetric])
  moreover have "\<exists>a1 r1 a2 r2 a3 r3 w'.
          toolLoop co s options 3 start 0 w
          = (\<lparr>loop_outcome = Inl (ErrorObject ''Max iterations (3) reached without completing''),
              conversationMessages =
                start @ a1 # map toolMessage r1 @ a2 # map toolMessage r2 @ a3 # map toolMessage r3,
              iteration = 3\<rparr>, w')
          \<and> answered a1 r1 \<and> answered a2 r2 \<and> answered a3 r3"
    using loop s1(1) s2(1) s3(1) by blast
  ultimately show ?thesis unfolding start_def by blast
qed

theorem chatWithToolLoop_bound_three_witness:
  "getApiKey (demoCollaborators callingReply) = Some ''sk''
   \<and> alwaysCallsTools (demoCollaborators callingReply)
   \<and> maxIterations threeOptions = Some 3
   \<and> fst (chatWithToolLoop (demoCollaborators callingReply) oneToolState
         [plainMessage User ''hi''] threeOptions 0)
       = Inl (ErrorObject ''Max iterations (3) reached without completing'')"
proof -
  have k: "getApiKey (demoCollaborators callingReply) = Some ''sk''"
    by (simp add: getApiKey_def)
  have a: "alwaysCallsTools (demoCollaborators callingReply)"
    by (simp add: alwaysCallsTools_def hasToolCalls_def)
  have m: "maxIterations threeOptions = Some 3" by simp
  from chatWithToolLoop_bound_three [OF k a m, of oneToolState "[plainMessage User ''hi'']" 0]
  show ?thesis using k a m by blast
qed

lemma demo_chat:
  "chat (demoCollaborators callingReply) oneToolState conversation threeOptions w
     = (Inr (nulledReply,
          Some [\<lparr>result_tool_call_id = ''call_1'', result_name = ''c1__echo'',
                 result_output = ''json''\<rparr>]), Suc w)"
  by (simp add: chat_def getApiKey_def normalizeContent_def executeTool_def callTool_def
        splitFunctionName_def splitStr_def prefix_def Let_def)

text \<open>
  C4 as first stated has the transcript returned on this failure, with tool
  results for the first two replies only. With a backend that always asks for one call
  of the tool, the call returns the thrown error and the count of backend requests (3),
  and the loop's conversation ends with the third reply and its tool result.
\<close>

theorem chatWithToolLoop_transcript_counterexample:
  "chatWithToolLoop (demoCollaborators callingReply) oneToolState
       [plainMessage User ''hi''] threeOptions 0
     = (Inl (ErrorObject ''Max iterations (3) reached without completing''), 3)
   \<and> toolLoop (demoCollaborators callingReply) oneToolState threeOptions 3
        [plainMessage System ''system'', plainMessage User ''hi''] 0 0
     = (\<lparr>loop_outcome = Inl (ErrorObject ''Max iterations (3) reached without completing''),
         conversationMessages =
           [plainMessage System ''system'', plainMessage User ''hi'',
            nulledReply, echoResultMessage,
            nulledReply, echoResultMessage,
            nulledReply, echoResultMessage],
         iteration = 3\<rparr>, 3)"
proof -
  have loop: "toolLoop (demoCollaborators callingReply) oneToolState threeOptions 3
        [plainMessage System ''system'', plainMessage User ''hi''] 0 0
     = (\<lparr>loop_outcome = Inl (ErrorObject ''Max iterations (3) reached without completing''),
         conversationMessages =
           [plainMessage System ''system'', plainMessage User ''hi'',
            nulledReply, echoResultMessage,
            nulledReply, echoResultMessage,
            nulledReply, echoResultMessage],
         iteration = 3\<rparr>, 3)"
    by (simp add: toolLoop.simps demo_chat hasToolCalls_def toolMessage_def stringOfInt_3
          numeral_3_eq_3)
  then show ?thesis
    by (simp add: chatWithToolLoop_def systemPrompt_def Let_def)
qed

end
